theory Spec2Isabelle
  imports Complex_Main "HOL-Library.AList" "HOL-Library.Sublist" "HOL-Library.Log_Nat"
begin

section \<open>JavaScript values, results and strings\<close>

text \<open>
  A call either returns a value or throws; mutable state survives a throw, so every
  stateful operation below returns its result together with the state it leaves behind.
  Strings are lists of characters (one \<open>char\<close> per code unit, Latin-1 range), counters
  are naturals. The quality \<open>score\<close> is computed on doubles (next section); the other
  fractions of the source (\<open>similarity\<close>, \<open>totalCost\<close>), which are only compared, are
  exact rationals.
\<close>

datatype 'a outcome = Ok 'a | Threw string

text \<open>
  Vector-store metadata is a free-form object: a value is a string, a number, a boolean
  or a list of strings; reading a property that is not there gives \<open>undefined\<close>.
\<close>

datatype js_value =
    JString string
  | JNumber rat
  | JBool bool
  | JStrings "string list"
  | JUndefined

type_synonym js_object = "(string \<times> js_value) list"

definition get_prop :: "js_object \<Rightarrow> string \<Rightarrow> js_value" where
  "get_prop obj k = (case map_of obj k of Some v \<Rightarrow> v | None \<Rightarrow> JUndefined)"

fun truthy :: "js_value \<Rightarrow> bool" where
  "truthy (JString s) = (s \<noteq> [])"
| "truthy (JNumber n) = (n \<noteq> 0)"
| "truthy (JBool b) = b"
| "truthy (JStrings xs) = True"
| "truthy JUndefined = False"

text \<open>\<open>v.length\<close>: defined for strings and arrays, \<open>undefined\<close> (here \<open>None\<close>) otherwise.\<close>

fun js_length :: "js_value \<Rightarrow> nat option" where
  "js_length (JString s) = Some (length s)"
| "js_length (JStrings xs) = Some (length xs)"
| "js_length v = None"

text \<open>\<open>a === b\<close>; two arrays read from two records are different objects.\<close>

fun strict_eq :: "js_value \<Rightarrow> js_value \<Rightarrow> bool" where
  "strict_eq (JStrings xs) v = False"
| "strict_eq v (JStrings ys) = False"
| "strict_eq a b = (a = b)"

definition js_whitespace :: "char \<Rightarrow> bool" where
  "js_whitespace c = ((of_char c :: nat) \<in> {9, 10, 11, 12, 13, 32, 160})"

definition js_digit :: "char \<Rightarrow> bool" where
  "js_digit c = (48 \<le> (of_char c :: nat) \<and> (of_char c :: nat) \<le> 57)"

definition sentence_end :: "char \<Rightarrow> bool" where
  "sentence_end c = (c = CHR ''.'' \<or> c = CHR ''!'' \<or> c = CHR ''?'')"

definition toLowerCase_char :: "char \<Rightarrow> char" where
  "toLowerCase_char c =
     (let n = (of_char c :: nat)
      in if (65 \<le> n \<and> n \<le> 90) \<or> (192 \<le> n \<and> n \<le> 222 \<and> n \<noteq> 215)
         then char_of (n + 32) else c)"

definition toLowerCase :: "string \<Rightarrow> string" where
  "toLowerCase s = map toLowerCase_char s"

text \<open>
  \<open>s.split(/[sep]+/)\<close>: the pieces between maximal runs of separator characters. A
  separator at the very start or end leaves an empty first or last piece, and the empty
  string splits into one empty piece. The flag says that the previous character was a
  separator.
\<close>

primrec split_runs :: "(char \<Rightarrow> bool) \<Rightarrow> bool \<Rightarrow> string \<Rightarrow> string list" where
  "split_runs sep prev [] = [[]]"
| "split_runs sep prev (c # cs) =
     (if sep c then (if prev then split_runs sep True cs else [] # split_runs sep True cs)
      else (case split_runs sep False cs of
              [] \<Rightarrow> [[c]]
            | w # ws \<Rightarrow> (c # w) # ws))"

definition split_regex :: "(char \<Rightarrow> bool) \<Rightarrow> string \<Rightarrow> string list" where
  "split_regex sep s = split_runs sep False s"

definition js_includes :: "string \<Rightarrow> string \<Rightarrow> bool" where
  "js_includes s needle = (\<exists>k \<in> set [0..<Suc (length s)]. prefix needle (drop k s))"


section \<open>JavaScript numbers\<close>

text \<open>
  A JavaScript number is an IEEE 754 binary64 double. A finite double is modelled by the
  rational it denotes. An arithmetic operation on doubles, and the reading of a decimal
  literal, gives the exact result rounded to the nearest double, ties to the even
  significand: 53 significant bits, the exponent of the last place not below \<open>-1074\<close>. The
  numbers of this development stay far below the overflow threshold, so infinities and
  NaN are not modelled.
\<close>

definition pow2 :: "int \<Rightarrow> rat" where
  "pow2 e = (if 0 \<le> e then 2 ^ nat e else 1 / 2 ^ nat (- e))"

definition round_half_even :: "rat \<Rightarrow> int" where
  "round_half_even q =
     (let f = \<lfloor>q\<rfloor>; r = q - of_int f
      in if r < 1 / 2 then f
         else if r > 1 / 2 then f + 1
         else if even f then f else f + 1)"

text \<open>The exponent \<open>e\<close> with \<open>2 ^ e \<le> a < 2 ^ (e + 1)\<close>, for a positive \<open>a\<close>.\<close>

definition binary_exponent :: "rat \<Rightarrow> int" where
  "binary_exponent a =
     (let (n, d) = quotient_of a;
          k = bitlen n - bitlen d
      in if pow2 k \<le> a then k else k - 1)"

definition round_double :: "rat \<Rightarrow> rat" where
  "round_double q =
     (if q = 0 then 0
      else (let a = \<bar>q\<bar>;
                e = max (binary_exponent a) (- 1022);
                ulp = pow2 (e - 52)
            in sgn q * of_int (round_half_even (a / ulp)) * ulp))"

text \<open>\<open>a - b\<close> and \<open>a / b\<close> on doubles (the divisors below are lengths of nonempty lists).\<close>

definition double_sub :: "rat \<Rightarrow> rat \<Rightarrow> rat" where
  "double_sub a b = round_double (a - b)"

definition double_div :: "rat \<Rightarrow> rat \<Rightarrow> rat" where
  "double_div a b = round_double (a / b)"


section \<open>Quality Assurance Validator\<close>

text \<open>\<open>this.thresholds\<close>, set once in the constructor.\<close>

definition similarityThreshold :: rat where "similarityThreshold = 85 / 100"
definition qualityScoreMin :: rat where "qualityScoreMin = round_double (7 / 10)"
definition maxChunkLength :: nat where "maxChunkLength = 2000"
definition minChunkLength :: nat where "minChunkLength = 50"

record assessment =
  score :: rat
  issues :: "string list"
  recommendations :: "string list"

text \<open>
  One check of \<open>assessContentQuality\<close>: when the condition holds, push the issue and its
  recommendations and subtract the penalty (\<open>score -= penalty\<close>, on doubles).
\<close>

definition flag :: "bool \<Rightarrow> rat \<Rightarrow> string \<Rightarrow> string list \<Rightarrow> assessment \<Rightarrow> assessment" where
  "flag c penalty issue recs a =
     (if c then a\<lparr>score := double_sub (score a) penalty,
                  issues := issues a @ [issue],
                  recommendations := recommendations a @ recs\<rparr>
      else a)"

definition meaningful :: "string \<Rightarrow> bool" where
  "meaningful word = (length word > 3 \<and> \<not> (word \<noteq> [] \<and> list_all js_digit word))"

text \<open>The block under \<open>if (chunk.content)\<close>, for a string content.\<close>

definition content_checks :: "string \<Rightarrow> assessment \<Rightarrow> assessment" where
  "content_checks content a =
     (let words = split_regex js_whitespace content;
          uniqueWords = remdups words;
          uniqueRatio = double_div (of_nat (length uniqueWords)) (of_nat (length words));
          a1 = flag (uniqueRatio < round_double (3 / 10)) (round_double (3 / 10))
                 ''Highly repetitive content'' [] a;
          meaningfulWordCount = length (filter meaningful words);
          a2 = flag (double_div (of_nat meaningfulWordCount) (of_nat (length words))
                       < round_double (4 / 10))
                 (round_double (2 / 10)) ''Low meaningful content ratio'' [] a1;
          sentences = split_regex sentence_end content;
          avgSentenceLength = double_div (of_nat (length content)) (of_nat (length sentences))
      in flag (avgSentenceLength < 10) (round_double (1 / 10))
           ''Very short sentences, possibly fragmented content'' [] a2)"

definition length_below :: "js_value \<Rightarrow> nat \<Rightarrow> bool" where
  "length_below v n = (case js_length v of Some l \<Rightarrow> l < n | None \<Rightarrow> False)"

definition length_above :: "js_value \<Rightarrow> nat \<Rightarrow> bool" where
  "length_above v n = (case js_length v of Some l \<Rightarrow> l > n | None \<Rightarrow> False)"

definition length_checks :: "js_value \<Rightarrow> assessment \<Rightarrow> assessment" where
  "length_checks content a =
     (let a1 = flag (\<not> truthy content \<or> length_below content minChunkLength)
                 (round_double (3 / 10)) ''Content too short''
                 [''Consider increasing minimum content length threshold''] a
      in flag (truthy content \<and> length_above content maxChunkLength)
           (round_double (2 / 10)) ''Content too long''
           [''Consider reducing chunk size or improving splitting''] a1)"

definition metadata_checks :: "js_object \<Rightarrow> assessment \<Rightarrow> assessment" where
  "metadata_checks chunk a =
     (let title = get_prop chunk ''title'';
          headings = get_prop chunk ''headings'';
          language = get_prop chunk ''language'';
          a1 = flag (\<not> truthy title \<or> length_below title 10) (round_double (1 / 10))
                 ''Missing or poor title'' [] a;
          a2 = flag (\<not> truthy headings \<or> js_length headings = Some 0)
                 (round_double (1 / 10)) ''No structural headings found''
                 [''Improve content extraction to capture headings''] a1
      in flag (\<not> truthy language \<or> language = JString ''unknown'') (round_double (1 / 10))
           ''Language not detected'' [] a2)"

text \<open>
  \<open>assessContentQuality\<close>: the length checks, the content block (where \<open>split\<close> on a
  content that is not a string throws), the metadata checks, and the floor at 0.
\<close>

definition assessContentQuality :: "js_object \<Rightarrow> assessment outcome" where
  "assessContentQuality chunk =
     (let content = get_prop chunk ''content'';
          a2 = length_checks content \<lparr>score = 1, issues = [], recommendations = []\<rparr>
      in case (if truthy content
               then (case content of
                       JString s \<Rightarrow> Ok (content_checks s a2)
                     | _ \<Rightarrow> Threw ''TypeError: chunk.content.split is not a function'')
               else Ok a2) of
           Threw e \<Rightarrow> Threw e
         | Ok a3 \<Rightarrow>
             (let a6 = metadata_checks chunk a3
              in Ok (a6\<lparr>score := max 0 (score a6)\<rparr>)))"

text \<open>The fixed penalty the source subtracts together with each issue text.\<close>

definition issue_penalty :: "string \<Rightarrow> rat" where
  "issue_penalty issue =
     (if issue = ''Content too short'' then round_double (3 / 10)
      else if issue = ''Content too long'' then round_double (2 / 10)
      else if issue = ''Highly repetitive content'' then round_double (3 / 10)
      else if issue = ''Low meaningful content ratio'' then round_double (2 / 10)
      else if issue = ''Very short sentences, possibly fragmented content''
        then round_double (1 / 10)
      else if issue = ''Missing or poor title'' then round_double (1 / 10)
      else if issue = ''No structural headings found'' then round_double (1 / 10)
      else if issue = ''Language not detected'' then round_double (1 / 10)
      else 0)"

text \<open>A match of the sampling query: its id and its metadata.\<close>

record match =
  match_id :: string
  metadata :: js_object

definition verification_entry :: "match \<Rightarrow> assessment \<Rightarrow> js_object" where
  "verification_entry m qualityAssessment =
     (let chunk = metadata m
      in [(''id'', JString (match_id m)),
          (''url'', get_prop chunk ''url''),
          (''source'', get_prop chunk ''source''),
          (''title'', get_prop chunk ''title''),
          (''chunkIndex'', get_prop chunk ''chunkIndex''),
          (''contentLength'',
             JNumber (of_nat (case js_length (get_prop chunk ''content'') of
                                Some l \<Rightarrow> l | None \<Rightarrow> 0))),
          (''qualityScore'', JNumber (score qualityAssessment)),
          (''issues'', JStrings (issues qualityAssessment)),
          (''recommendations'', JStrings (recommendations qualityAssessment)),
          (''language'', get_prop chunk ''language''),
          (''hasHeadings'',
             JBool (case js_length (get_prop chunk ''headings'') of
                      Some l \<Rightarrow> l > 0 | None \<Rightarrow> False)),
          (''timestamp'', get_prop chunk ''indexedAt'')])"

text \<open>
  \<open>verifyContentQuality\<close>: the loop over the sampled matches, pushing one entry per match
  onto \<open>results.contentVerification\<close>.
\<close>

fun verifyContentQuality :: "match list \<Rightarrow> js_object list \<Rightarrow> js_object list outcome" where
  "verifyContentQuality [] contentVerification = Ok contentVerification"
| "verifyContentQuality (m # ms) contentVerification =
     (case assessContentQuality (metadata m) of
        Threw e \<Rightarrow> Threw e
      | Ok qualityAssessment \<Rightarrow>
          verifyContentQuality ms
            (contentVerification @ [verification_entry m qualityAssessment]))"

definition lowered_content :: "js_object \<Rightarrow> string outcome" where
  "lowered_content chunk =
     (let c = get_prop chunk ''content''
      in if truthy c
         then (case c of
                 JString s \<Rightarrow> Ok (toLowerCase s)
               | _ \<Rightarrow> Threw ''TypeError: toLowerCase is not a function'')
         else Ok [])"

definition calculateContentSimilarity :: "js_object \<Rightarrow> js_object \<Rightarrow> rat outcome" where
  "calculateContentSimilarity chunk1 chunk2 =
     (case lowered_content chunk1 of
        Threw e \<Rightarrow> Threw e
      | Ok text1 \<Rightarrow>
          (case lowered_content chunk2 of
             Threw e \<Rightarrow> Threw e
           | Ok text2 \<Rightarrow>
               if text1 = [] \<or> text2 = [] then Ok 0
               else
                 (let words1 = remdups (split_regex js_whitespace text1);
                      words2 = remdups (split_regex js_whitespace text2);
                      intersection = filter (\<lambda>x. x \<in> set words2) words1;
                      union = remdups (words1 @ words2)
                  in Ok ((of_nat (length intersection) :: rat) / of_nat (length union)))))"

record duplicate_pair =
  dup_chunk1 :: js_object
  dup_chunk2 :: js_object
  dup_similarity :: rat
  dup_type :: string
  dup_source1 :: js_value
  dup_source2 :: js_value

definition duplicate_entry :: "js_object \<Rightarrow> js_object \<Rightarrow> rat \<Rightarrow> duplicate_pair" where
  "duplicate_entry chunk1 chunk2 similarity =
     \<lparr>dup_chunk1 = [(''id'', get_prop chunk1 ''id''), (''url'', get_prop chunk1 ''url''),
                    (''title'', get_prop chunk1 ''title'')],
      dup_chunk2 = [(''id'', get_prop chunk2 ''id''), (''url'', get_prop chunk2 ''url''),
                    (''title'', get_prop chunk2 ''title'')],
      dup_similarity = similarity,
      dup_type = (if strict_eq (get_prop chunk1 ''url'') (get_prop chunk2 ''url'')
                  then ''same-page'' else ''cross-page''),
      dup_source1 = get_prop chunk1 ''source'',
      dup_source2 = get_prop chunk2 ''source''\<rparr>"

text \<open>
  The two nested index loops of \<open>analyzeDuplication\<close>; the accumulator is the list
  \<open>duplicates\<close> and the set \<open>processed\<close> of indices already paired.
\<close>

fun inner_loop ::
  "js_object list \<Rightarrow> nat \<Rightarrow> nat list \<Rightarrow> duplicate_pair list \<times> nat list
    \<Rightarrow> (duplicate_pair list \<times> nat list) outcome" where
  "inner_loop cv i [] acc = Ok acc"
| "inner_loop cv i (j # js) (duplicates, processed) =
     (if j \<in> set processed then inner_loop cv i js (duplicates, processed)
      else (case calculateContentSimilarity (cv ! i) (cv ! j) of
              Threw e \<Rightarrow> Threw e
            | Ok similarity \<Rightarrow>
                if similarity > similarityThreshold
                then inner_loop cv i js
                       (duplicates @ [duplicate_entry (cv ! i) (cv ! j) similarity],
                        processed @ [j])
                else inner_loop cv i js (duplicates, processed)))"

fun outer_loop ::
  "js_object list \<Rightarrow> nat list \<Rightarrow> duplicate_pair list \<times> nat list
    \<Rightarrow> (duplicate_pair list \<times> nat list) outcome" where
  "outer_loop cv [] acc = Ok acc"
| "outer_loop cv (i # is) (duplicates, processed) =
     (if i \<in> set processed then outer_loop cv is (duplicates, processed)
      else (case inner_loop cv i [Suc i..<length cv] (duplicates, processed) of
              Threw e \<Rightarrow> Threw e
            | Ok acc \<Rightarrow> outer_loop cv is acc))"

definition analyzeDuplication :: "js_object list \<Rightarrow> duplicate_pair list outcome" where
  "analyzeDuplication contentVerification =
     (case outer_loop contentVerification [0..<length contentVerification] ([], []) of
        Threw e \<Rightarrow> Threw e
      | Ok (duplicates, processed) \<Rightarrow> Ok duplicates)"


section \<open>Sets and maps of the source\<close>

text \<open>
  A JavaScript \<open>Set\<close> keeps its members in insertion order and holds each at most once;
  a \<open>Map\<close> is the association list \<^const>\<open>AList.update\<close> maintains (a key that is
  there is overwritten in place, a new key is appended).
\<close>

definition set_add :: "'a \<Rightarrow> 'a list \<Rightarrow> 'a list" where
  "set_add x xs = (if x \<in> set xs then xs else xs @ [x])"

definition set_delete :: "'a \<Rightarrow> 'a list \<Rightarrow> 'a list" where
  "set_delete x xs = removeAll x xs"

text \<open>The decimal digits of a number, as a template literal prints it.\<close>

fun string_of_nat :: "nat \<Rightarrow> string" where
  "string_of_nat n =
     (if n < 10 then [''0123456789'' ! n]
      else string_of_nat (n div 10) @ [''0123456789'' ! (n mod 10)])"

declare string_of_nat.simps [simp del]


section \<open>Indexing tracker\<close>

record session_stats =
  pagesDiscovered :: nat
  pagesProcessed :: nat
  pagesIndexed :: nat
  pagesFailed :: nat
  pagesSkipped :: nat
  chunksCreated :: nat
  tokensProcessed :: nat
  errorsEncountered :: nat

record session_costs =
  embeddingTokens :: nat
  embeddingCost :: rat
  apiCalls :: nat
  totalCost :: rat

record indexed_page =
  page_chunks :: nat
  page_tokens :: nat
  page_title :: string
  page_contentLength :: nat
  page_quality :: string

record failure_info =
  failure_error :: string
  failure_attempts :: nat
  failure_errorType :: string

record session_error =
  error_url :: string
  error_message :: string
  error_attempt :: nat

record session_warning =
  warning_url :: string
  warning_type :: string
  warning_reason :: string
  warning_score :: rat

text \<open>A session; the wall-clock fields (\<open>startTime\<close>, \<open>endTime\<close>, timestamps) are left out.\<close>

record session =
  sessionId :: string
  sourceKey :: string
  status :: string
  discoveredUrls :: "string list"
  queuedUrls :: "string list"
  processedUrls :: "string list"
  failedUrls :: "(string \<times> failure_info) list"
  skippedUrls :: "(string \<times> string) list"
  indexedPages :: "(string \<times> indexed_page) list"
  duplicatePages :: "string list"
  lowQualityPages :: "string list"
  stats :: session_stats
  errors :: "session_error list"
  warnings :: "session_warning list"
  costs :: session_costs

record source_progress =
  progress_sessions :: nat
  progress_totalPages :: nat

record global_stats =
  totalPagesDiscovered :: nat
  totalPagesIndexed :: nat
  totalPagesFailed :: nat
  totalChunksCreated :: nat
  sourcesProgress :: "(string \<times> source_progress) list"

record tracker =
  sessions :: "(string \<times> session) list"
  globalStats :: global_stats
  currentSession :: "string option"

text \<open>The state the constructor sets up (no saved state on disk).\<close>

definition new_tracker :: tracker where
  "new_tracker =
     \<lparr>sessions = [],
      globalStats = \<lparr>totalPagesDiscovered = 0, totalPagesIndexed = 0, totalPagesFailed = 0,
                      totalChunksCreated = 0, sourcesProgress = []\<rparr>,
      currentSession = None\<rparr>"

text \<open>\<open>Date.now()\<close> is the argument \<open>now\<close>.\<close>

definition startIndexingSession :: "tracker \<Rightarrow> string \<Rightarrow> nat \<Rightarrow> tracker \<times> string" where
  "startIndexingSession t source now =
     (let sid = source @ ''_'' @ string_of_nat now;
          s = \<lparr>sessionId = sid, sourceKey = source, status = ''running'',
               discoveredUrls = [], queuedUrls = [], processedUrls = [],
               failedUrls = [], skippedUrls = [], indexedPages = [],
               duplicatePages = [], lowQualityPages = [],
               stats = \<lparr>pagesDiscovered = 0, pagesProcessed = 0, pagesIndexed = 0,
                         pagesFailed = 0, pagesSkipped = 0, chunksCreated = 0,
                         tokensProcessed = 0, errorsEncountered = 0\<rparr>,
               errors = [], warnings = [],
               costs = \<lparr>embeddingTokens = 0, embeddingCost = 0, apiCalls = 0,
                         totalCost = 0\<rparr>\<rparr>
      in (t\<lparr>sessions := AList.update sid s (sessions t), currentSession := Some sid\<rparr>, sid))"

text \<open>
  Every other operation starts with \<open>const session = this.state.sessions.get(sessionId);
  if (!session) return;\<close> and then mutates the session object in place.
\<close>

definition with_session :: "tracker \<Rightarrow> string \<Rightarrow> (session \<Rightarrow> session) \<Rightarrow> tracker" where
  "with_session t sid f =
     (case map_of (sessions t) sid of
        None \<Rightarrow> t
      | Some s \<Rightarrow> t\<lparr>sessions := AList.update sid (f s) (sessions t)\<rparr>)"

definition updateGlobalStats :: "global_stats \<Rightarrow> session \<Rightarrow> global_stats" where
  "updateGlobalStats g s =
     (let sp = (case map_of (sourcesProgress g) (sourceKey s) of
                  None \<Rightarrow> \<lparr>progress_sessions = 0, progress_totalPages = 0\<rparr>
                | Some p \<Rightarrow> p)
      in g\<lparr>totalPagesIndexed := totalPagesIndexed g + pagesIndexed (stats s),
            totalPagesFailed := totalPagesFailed g + pagesFailed (stats s),
            totalChunksCreated := totalChunksCreated g + chunksCreated (stats s),
            sourcesProgress :=
              AList.update (sourceKey s)
                \<lparr>progress_sessions = progress_sessions sp + 1,
                 progress_totalPages = progress_totalPages sp + pagesIndexed (stats s)\<rparr>
                (sourcesProgress g)\<rparr>)"

definition endIndexingSession :: "tracker \<Rightarrow> string \<Rightarrow> string \<Rightarrow> tracker" where
  "endIndexingSession t sid st =
     (case map_of (sessions t) sid of
        None \<Rightarrow> t
      | Some s \<Rightarrow>
          (let s' = s\<lparr>status := st\<rparr>
           in t\<lparr>sessions := AList.update sid s' (sessions t),
                 globalStats := updateGlobalStats (globalStats t) s',
                 currentSession :=
                   (if currentSession t = Some sid then None else currentSession t)\<rparr>))"

text \<open>
  The loop of \<open>recordDiscoveredUrls\<close>: a URL not yet in \<open>discoveredUrls\<close> is added to
  \<open>discoveredUrls\<close> and to \<open>queuedUrls\<close> and pushed onto \<open>newUrls\<close>.
\<close>

fun discover_loop :: "string list \<Rightarrow> session \<Rightarrow> string list \<Rightarrow> session \<times> string list" where
  "discover_loop [] s newUrls = (s, newUrls)"
| "discover_loop (url # urls) s newUrls =
     (if url \<notin> set (discoveredUrls s)
      then discover_loop urls
             (s\<lparr>discoveredUrls := set_add url (discoveredUrls s),
                queuedUrls := set_add url (queuedUrls s)\<rparr>)
             (newUrls @ [url])
      else discover_loop urls s newUrls)"

text \<open>
  \<open>recordDiscoveredUrls\<close> returns \<open>newUrls.length\<close> (nothing for an unknown session); the
  model also hands back \<open>newUrls\<close> itself, the list the source passes to \<open>logEvent\<close>.
\<close>

definition recordDiscoveredUrls ::
  "tracker \<Rightarrow> string \<Rightarrow> string list \<Rightarrow> tracker \<times> nat option \<times> string list" where
  "recordDiscoveredUrls t sid urls =
     (case map_of (sessions t) sid of
        None \<Rightarrow> (t, None, [])
      | Some s \<Rightarrow>
          (let (s1, newUrls) = discover_loop urls s [];
               s2 = s1\<lparr>stats := (stats s1)\<lparr>pagesDiscovered :=
                                   pagesDiscovered (stats s1) + length newUrls\<rparr>\<rparr>
           in (t\<lparr>sessions := AList.update sid s2 (sessions t)\<rparr>,
               Some (length newUrls), newUrls)))"

definition recordProcessingStart :: "tracker \<Rightarrow> string \<Rightarrow> string \<Rightarrow> tracker" where
  "recordProcessingStart t sid url =
     with_session t sid (\<lambda>s. s\<lparr>queuedUrls := set_delete url (queuedUrls s)\<rparr>)"

text \<open>The \<open>result\<close> argument of \<open>recordProcessingSuccess\<close>; a property may be missing.\<close>

record processing_result =
  result_chunks :: "nat option"
  result_tokens :: "nat option"
  result_title :: "string option"
  result_contentLength :: "nat option"
  result_quality :: "string option"
  result_embeddingCost :: "rat option"
  result_embeddingTokens :: "nat option"
  result_apiCalls :: "nat option"

definition or_default :: "'a option \<Rightarrow> 'a \<Rightarrow> 'a" where
  "or_default v d = (case v of None \<Rightarrow> d | Some x \<Rightarrow> x)"

definition recordProcessingSuccess ::
  "tracker \<Rightarrow> string \<Rightarrow> string \<Rightarrow> processing_result \<Rightarrow> tracker" where
  "recordProcessingSuccess t sid url result =
     with_session t sid (\<lambda>s.
       let s1 = s\<lparr>processedUrls := set_add url (processedUrls s),
                  indexedPages :=
                    AList.update url
                      \<lparr>page_chunks = or_default (result_chunks result) 0,
                       page_tokens = or_default (result_tokens result) 0,
                       page_title = or_default (result_title result) [],
                       page_contentLength = or_default (result_contentLength result) 0,
                       page_quality =
                         (case result_quality result of
                            None \<Rightarrow> ''unknown''
                          | Some q \<Rightarrow> if q = [] then ''unknown'' else q)\<rparr>
                      (indexedPages s)\<rparr>;
           st = stats s1;
           s2 = s1\<lparr>stats := st\<lparr>pagesProcessed := pagesProcessed st + 1,
                                pagesIndexed := pagesIndexed st + 1,
                                chunksCreated :=
                                  chunksCreated st + or_default (result_chunks result) 0,
                                tokensProcessed :=
                                  tokensProcessed st + or_default (result_tokens result) 0\<rparr>\<rparr>;
           c = costs s2
       in (case result_embeddingCost result of
             None \<Rightarrow> s2
           | Some cost \<Rightarrow>
               if cost = 0 then s2
               else s2\<lparr>costs := c\<lparr>embeddingTokens :=
                                     embeddingTokens c
                                       + or_default (result_embeddingTokens result) 0,
                                   embeddingCost := embeddingCost c + cost,
                                   apiCalls :=
                                     apiCalls c
                                       + (case result_apiCalls result of
                                            None \<Rightarrow> 1
                                          | Some n \<Rightarrow> if n = 0 then 1 else n),
                                   totalCost := totalCost c + cost\<rparr>\<rparr>))"

text \<open>The tracker's \<open>categorizeError\<close>, on the error message.\<close>

definition categorizeError :: "string \<Rightarrow> string" where
  "categorizeError message =
     (if js_includes message ''timeout'' then ''timeout''
      else if js_includes message ''404'' \<or> js_includes message ''not found''
        then ''not_found''
      else if js_includes message ''403'' \<or> js_includes message ''forbidden''
        then ''forbidden''
      else if js_includes message ''robots.txt'' then ''robots_blocked''
      else if js_includes message ''content too short'' then ''low_quality''
      else if js_includes message ''duplicate'' then ''duplicate''
      else if js_includes message ''network'' \<or> js_includes message ''ENOTFOUND''
        then ''network''
      else if js_includes message ''parse'' \<or> js_includes message ''selector''
        then ''parsing''
      else ''unknown'')"

definition recordProcessingFailure ::
  "tracker \<Rightarrow> string \<Rightarrow> string \<Rightarrow> string \<Rightarrow> nat \<Rightarrow> tracker" where
  "recordProcessingFailure t sid url error attempt =
     with_session t sid (\<lambda>s.
       let st = stats s
       in s\<lparr>processedUrls := set_add url (processedUrls s),
            failedUrls :=
              AList.update url
                \<lparr>failure_error = error, failure_attempts = attempt,
                 failure_errorType = categorizeError error\<rparr>
                (failedUrls s),
            stats := st\<lparr>pagesProcessed := pagesProcessed st + 1,
                        pagesFailed := pagesFailed st + 1,
                        errorsEncountered := errorsEncountered st + 1\<rparr>,
            errors := errors s @ [\<lparr>error_url = url, error_message = error,
                                   error_attempt = attempt\<rparr>]\<rparr>)"

definition recordSkippedUrl :: "tracker \<Rightarrow> string \<Rightarrow> string \<Rightarrow> string \<Rightarrow> tracker" where
  "recordSkippedUrl t sid url reason =
     with_session t sid (\<lambda>s.
       s\<lparr>queuedUrls := set_delete url (queuedUrls s),
         skippedUrls := AList.update url reason (skippedUrls s),
         stats := (stats s)\<lparr>pagesSkipped := pagesSkipped (stats s) + 1\<rparr>\<rparr>)"

definition recordDuplicateContent :: "tracker \<Rightarrow> string \<Rightarrow> string \<Rightarrow> string \<Rightarrow> tracker" where
  "recordDuplicateContent t sid url similarUrl =
     with_session t sid (\<lambda>s. s\<lparr>duplicatePages := set_add url (duplicatePages s)\<rparr>)"

definition recordLowQualityContent ::
  "tracker \<Rightarrow> string \<Rightarrow> string \<Rightarrow> string \<Rightarrow> rat \<Rightarrow> tracker" where
  "recordLowQualityContent t sid url reason sc =
     with_session t sid (\<lambda>s.
       s\<lparr>lowQualityPages := set_add url (lowQualityPages s),
         warnings := warnings s @ [\<lparr>warning_url = url, warning_type = ''low_quality'',
                                     warning_reason = reason, warning_score = sc\<rparr>]\<rparr>)"

text \<open>The state-changing calls of the tracker's API, and a run of them in order.\<close>

datatype tracker_call =
    StartIndexingSession string nat
  | EndIndexingSession string string
  | RecordDiscoveredUrls string "string list"
  | RecordProcessingStart string string
  | RecordProcessingSuccess string string processing_result
  | RecordProcessingFailure string string string nat
  | RecordSkippedUrl string string string
  | RecordDuplicateContent string string string
  | RecordLowQualityContent string string string rat

fun call :: "tracker \<Rightarrow> tracker_call \<Rightarrow> tracker" where
  "call t (StartIndexingSession source now) = fst (startIndexingSession t source now)"
| "call t (EndIndexingSession sid st) = endIndexingSession t sid st"
| "call t (RecordDiscoveredUrls sid urls) = fst (recordDiscoveredUrls t sid urls)"
| "call t (RecordProcessingStart sid url) = recordProcessingStart t sid url"
| "call t (RecordProcessingSuccess sid url result) = recordProcessingSuccess t sid url result"
| "call t (RecordProcessingFailure sid url error attempt) =
     recordProcessingFailure t sid url error attempt"
| "call t (RecordSkippedUrl sid url reason) = recordSkippedUrl t sid url reason"
| "call t (RecordDuplicateContent sid url similarUrl) =
     recordDuplicateContent t sid url similarUrl"
| "call t (RecordLowQualityContent sid url reason sc) =
     recordLowQualityContent t sid url reason sc"

definition calls :: "tracker \<Rightarrow> tracker_call list \<Rightarrow> tracker" where
  "calls t cs = foldl call t cs"


section \<open>Simple indexing reporter\<close>

record url_record =
  rec_sessionId :: string
  rec_url :: string
  rec_status :: string
  rec_error :: string

record error_record =
  err_sessionId :: string
  err_url :: "string option"
  err_error :: string
  err_errorType :: string
  err_attempt :: nat

text \<open>\<open>this.data\<close> of the reporter: the URL records and the error records.\<close>

record reporter =
  data_urls :: "url_record list"
  data_errors :: "error_record list"

text \<open>
  The object a caller passes to \<open>recordError\<close>. The reporter reads its properties
  \<open>sessionId\<close>, \<open>url\<close>, \<open>error\<close> and \<open>attempt\<close>; a property the caller did not set is
  \<open>undefined\<close> (\<open>None\<close>).
\<close>

record error_data =
  ed_sessionId :: string
  ed_url :: "string option"
  ed_error :: "string option"
  ed_errorType :: "string option"
  ed_message :: "string option"
  ed_attempt :: "nat option"

text \<open>The reporter's \<open>categorizeError\<close>, after \<open>error.toLowerCase()\<close>.\<close>

definition reporter_categorizeError :: "string \<Rightarrow> string" where
  "reporter_categorizeError error =
     (let message = toLowerCase error
      in if js_includes message ''timeout'' then ''timeout''
         else if js_includes message ''404'' \<or> js_includes message ''not found''
           then ''not_found''
         else if js_includes message ''403'' \<or> js_includes message ''forbidden''
           then ''forbidden''
         else if js_includes message ''robots'' then ''robots_blocked''
         else if js_includes message ''duplicate'' then ''duplicate''
         else if js_includes message ''quality'' then ''low_quality''
         else if js_includes message ''network'' then ''network''
         else if js_includes message ''parse'' then ''parsing''
         else ''unknown'')"

text \<open>
  \<open>recordError\<close> builds the record before it pushes it, and
  \<open>this.categorizeError(errorData.error)\<close> calls \<open>toLowerCase\<close> on its argument: with
  \<open>errorData.error\<close> undefined that call throws a TypeError and nothing is pushed.
\<close>

definition recordError :: "reporter \<Rightarrow> error_data \<Rightarrow> unit outcome \<times> reporter" where
  "recordError r errorData =
     (case ed_error errorData of
        None \<Rightarrow>
          (Threw ''TypeError: Cannot read properties of undefined (reading toLowerCase)'', r)
      | Some e \<Rightarrow>
          (Ok (),
           r\<lparr>data_errors := data_errors r @
               [\<lparr>err_sessionId = ed_sessionId errorData,
                 err_url = ed_url errorData,
                 err_error = e,
                 err_errorType = reporter_categorizeError e,
                 err_attempt = (case ed_attempt errorData of
                                  None \<Rightarrow> 1
                                | Some n \<Rightarrow> if n = 0 then 1 else n)\<rparr>]\<rparr>))"

text \<open>\<open>recordUrl\<close>; the processing time and the timestamp are left out.\<close>

definition recordUrl :: "reporter \<Rightarrow> string \<Rightarrow> string \<Rightarrow> string \<Rightarrow> string \<Rightarrow> reporter" where
  "recordUrl r sid url st error =
     r\<lparr>data_urls := data_urls r @
         [\<lparr>rec_sessionId = sid, rec_url = url, rec_status = st, rec_error = error\<rparr>]\<rparr>"


section \<open>Progressive indexer\<close>

record options =
  maxPages :: nat
  batchSize :: nat
  delayMs :: nat
  retryAttempts :: nat
  costBudget :: rat
  testMode :: bool

record indexer_stats =
  urlsDiscovered :: nat
  urlsProcessed :: nat
  urlsSuccessful :: nat
  urlsFailed :: nat
  stats_chunksCreated :: nat
  stats_totalCost :: rat
  stats_errors :: "(string \<times> string) list"

text \<open>What \<open>extractContent\<close> returns.\<close>

record page_content =
  content_title :: string
  content_text :: string
  content_language :: string
  content_author :: string
  content_publishedDate :: "string option"
  content_description :: "string option"
  content_headings :: "string list"

text \<open>A record of the vector index; \<open>values\<close> is \<open>embeddings[i]\<close>, undefined out of range.\<close>

record vector_record =
  vec_id :: string
  vec_values :: "rat list option"
  vec_metadata :: js_object

type_synonym vector_index = "(string \<times> vector_record) list"

text \<open>\<open>index.upsert(vectors)\<close>: a record whose id is in the index overwrites that record.\<close>

definition upsert :: "vector_record list \<Rightarrow> vector_index \<Rightarrow> vector_index" where
  "upsert vectors idx = fold (\<lambda>v. AList.update (vec_id v) v) vectors idx"

text \<open>
  What the outside world answers during one attempt on a URL: whether \<open>page.goto\<close> throws,
  what \<open>extractContent\<close> returns, the text splitter, the embedding service, the clock
  (\<open>Date.now()\<close> and \<open>new Date().toISOString()\<close> when the vector of chunk \<open>i\<close> is built) and
  whether the upsert throws.
\<close>

record attempt_env =
  goto_error :: "string option"
  extracted :: "page_content option outcome"
  splitText :: "string \<Rightarrow> string list outcome"
  embeddings_create :: "string list \<Rightarrow> rat list list outcome"
  date_now :: "nat \<Rightarrow> nat"
  iso_now :: "nat \<Rightarrow> string"
  upsert_error :: "string option"

text \<open>
  The world tells, for the number of navigations made so far and the URL, how the next
  attempt goes.
\<close>

type_synonym world = "nat \<Rightarrow> string \<Rightarrow> attempt_env"

text \<open>
  The indexer's mutable state. \<open>visited\<close> is the history of \<open>page.goto\<close> calls and
  \<open>vectorIndex\<close> the content of the vector index the indexer writes to.
\<close>

record indexer =
  indexer_sessionId :: string
  indexer_stats :: indexer_stats
  indexer_processedUrls :: "string list"
  indexer_reporter :: reporter
  vectorIndex :: vector_index
  visited :: "string list"

definition new_indexer :: "string \<Rightarrow> indexer" where
  "new_indexer sid =
     \<lparr>indexer_sessionId = sid,
      indexer_stats = \<lparr>urlsDiscovered = 0, urlsProcessed = 0, urlsSuccessful = 0,
                        urlsFailed = 0, stats_chunksCreated = 0, stats_totalCost = 0,
                        stats_errors = []\<rparr>,
      indexer_processedUrls = [],
      indexer_reporter = \<lparr>data_urls = [], data_errors = []\<rparr>,
      vectorIndex = [],
      visited = []\<rparr>"

text \<open>
  \<open>await this.reporter.recordError({ sessionId, errorType, message, url })\<close>: every call of
  the indexer sets \<open>errorType\<close> and \<open>message\<close> and leaves \<open>error\<close> and \<open>attempt\<close> unset.
\<close>

definition report_error :: "indexer \<Rightarrow> string \<Rightarrow> string \<Rightarrow> string \<Rightarrow> unit outcome \<times> indexer" where
  "report_error s errorType message url =
     (case recordError (indexer_reporter s)
             \<lparr>ed_sessionId = indexer_sessionId s, ed_url = Some url, ed_error = None,
              ed_errorType = Some errorType, ed_message = Some message,
              ed_attempt = None\<rparr> of
        (res, r) \<Rightarrow> (res, s\<lparr>indexer_reporter := r\<rparr>))"

definition report_url :: "indexer \<Rightarrow> string \<Rightarrow> string \<Rightarrow> string \<Rightarrow> indexer" where
  "report_url s url st error =
     s\<lparr>indexer_reporter := recordUrl (indexer_reporter s) (indexer_sessionId s) url st error\<rparr>"

definition zero_vector :: "rat list" where
  "zero_vector = replicate 3072 0"

definition createEmbeddings ::
  "options \<Rightarrow> attempt_env \<Rightarrow> string list \<Rightarrow> string \<Rightarrow> indexer
    \<Rightarrow> rat list list outcome \<times> indexer" where
  "createEmbeddings opts e chunks url s =
     (if testMode opts then (Ok (map (\<lambda>_. zero_vector) chunks), s)
      else (case embeddings_create e chunks of
              Ok vs \<Rightarrow> (Ok vs, s)
            | Threw msg \<Rightarrow>
                (case report_error s ''OPENAI_EMBEDDING_ERROR'' msg url of
                   (Threw m, s') \<Rightarrow> (Threw m, s')
                 | (Ok u, s') \<Rightarrow> (Threw msg, s'))))"

definition chunk_metadata ::
  "attempt_env \<Rightarrow> string list \<Rightarrow> page_content \<Rightarrow> string \<Rightarrow> string \<Rightarrow> nat \<Rightarrow> string
    \<Rightarrow> js_object" where
  "chunk_metadata e chunks content url sid i chunk =
     [(''content'', JString chunk),
      (''url'', JString url),
      (''title'', JString (content_title content)),
      (''source'', JString ''guimera.info''),
      (''sourceType'', JString ''main_site''),
      (''priority'', JNumber 1),
      (''chunkIndex'', JNumber (of_nat i)),
      (''totalChunks'', JNumber (of_nat (length chunks))),
      (''indexedAt'', JString (iso_now e i)),
      (''language'', JString (if content_language content = [] then ''ca''
                              else content_language content)),
      (''author'', JString (content_author content)),
      (''publishedDate'', (case content_publishedDate content of
                             None \<Rightarrow> JUndefined | Some d \<Rightarrow> JString d)),
      (''headings'', JStrings (content_headings content)),
      (''sessionId'', JString sid),
      (''phase'', JNumber 1)]"

definition chunk_vectors ::
  "attempt_env \<Rightarrow> string list \<Rightarrow> rat list list \<Rightarrow> page_content \<Rightarrow> string \<Rightarrow> string
    \<Rightarrow> vector_record list" where
  "chunk_vectors e chunks embeddings content url sid =
     map (\<lambda>(i, chunk).
            \<lparr>vec_id = ''guimera-p1-'' @ string_of_nat (date_now e i) @ ''-'' @ string_of_nat i,
             vec_values = (if i < length embeddings then Some (embeddings ! i) else None),
             vec_metadata = chunk_metadata e chunks content url sid i chunk\<rparr>)
         (enumerate 0 chunks)"

definition indexChunks ::
  "options \<Rightarrow> attempt_env \<Rightarrow> string list \<Rightarrow> rat list list \<Rightarrow> page_content \<Rightarrow> string
    \<Rightarrow> indexer \<Rightarrow> unit outcome \<times> indexer" where
  "indexChunks opts e chunks embeddings content url s =
     (if testMode opts then (Ok (), s)
      else
        (let vectors = chunk_vectors e chunks embeddings content url (indexer_sessionId s)
         in case upsert_error e of
              None \<Rightarrow> (Ok (), s\<lparr>vectorIndex := upsert vectors (vectorIndex s)\<rparr>)
            | Some msg \<Rightarrow>
                (case report_error s ''PINECONE_INDEXING_ERROR'' msg url of
                   (Threw m, s') \<Rightarrow> (Threw m, s')
                 | (Ok u, s') \<Rightarrow> (Threw msg, s'))))"

definition estimateCost :: "string list \<Rightarrow> rat" where
  "estimateCost chunks =
     (let tokensPerChunk = 500;
          totalTokens = length chunks * tokensPerChunk;
          costPer1kTokens = 13 / 100000
      in (of_nat totalTokens / 1000) * costPer1kTokens)"

text \<open>A recorded error ends the attempt with \<open>return false\<close>, unless recording throws.\<close>

definition report_and_fail ::
  "indexer \<Rightarrow> string \<Rightarrow> string \<Rightarrow> string \<Rightarrow> bool outcome \<times> indexer" where
  "report_and_fail s errorType message url =
     (case report_error s errorType message url of
        (Threw m, s') \<Rightarrow> (Threw m, s')
      | (Ok u, s') \<Rightarrow> (Ok False, s'))"

text \<open>The body of the \<open>try\<close> block of \<open>processUrl\<close>: one attempt on the URL.\<close>

definition try_url :: "options \<Rightarrow> world \<Rightarrow> string \<Rightarrow> indexer \<Rightarrow> bool outcome \<times> indexer" where
  "try_url opts w url s =
     (let e = w (length (visited s)) url;
          s1 = s\<lparr>visited := visited s @ [url]\<rparr>
      in case goto_error e of
           Some msg \<Rightarrow> (Threw msg, s1)
         | None \<Rightarrow>
             (case extracted e of
                Threw msg \<Rightarrow> (Threw msg, s1)
              | Ok None \<Rightarrow>
                  report_and_fail s1 ''INSUFFICIENT_CONTENT'' ''Content too short: 0 chars'' url
              | Ok (Some content) \<Rightarrow>
                  if length (content_text content) < 100
                  then report_and_fail s1 ''INSUFFICIENT_CONTENT''
                         (''Content too short: ''
                            @ string_of_nat (length (content_text content)) @ '' chars'') url
                  else
                    (case splitText e (content_text content) of
                       Threw msg \<Rightarrow> (Threw msg, s1)
                     | Ok chunks \<Rightarrow>
                         if chunks = []
                         then report_and_fail s1 ''NO_CHUNKS_CREATED''
                                ''Text splitter returned empty chunks'' url
                         else
                           (case createEmbeddings opts e chunks url s1 of
                              (Threw msg, s2) \<Rightarrow> (Threw msg, s2)
                            | (Ok embeddings, s2) \<Rightarrow>
                                if embeddings = []
                                then report_and_fail s2 ''EMBEDDING_FAILED''
                                       ''Failed to create embeddings'' url
                                else
                                  (case indexChunks opts e chunks embeddings content url s2 of
                                     (Threw msg, s3) \<Rightarrow> (Threw msg, s3)
                                   | (Ok u, s3) \<Rightarrow>
                                       (Ok True,
                                        s3\<lparr>indexer_stats := (indexer_stats s3)
                                             \<lparr>stats_chunksCreated :=
                                                stats_chunksCreated (indexer_stats s3)
                                                  + length chunks,
                                              stats_totalCost :=
                                                stats_totalCost (indexer_stats s3)
                                                  + estimateCost chunks\<rparr>\<rparr>))))))"

text \<open>
  \<open>processUrl(page, url, attempt = 1)\<close>: an attempt that throws is repeated while
  \<open>attempt < retryAttempts\<close>; the last error is thrown on.
\<close>

function processUrl ::
  "options \<Rightarrow> world \<Rightarrow> string \<Rightarrow> nat \<Rightarrow> indexer \<Rightarrow> bool outcome \<times> indexer" where
  "processUrl opts w url attempt s =
     (case try_url opts w url s of
        (Ok success, s') \<Rightarrow> (Ok success, s')
      | (Threw error, s') \<Rightarrow>
          if attempt < retryAttempts opts
          then processUrl opts w url (attempt + 1) s'
          else (Threw error, s'))"
  by pat_completeness auto
termination
  by (relation "measure (\<lambda>(opts, w, url, attempt, s). retryAttempts opts - attempt)") auto

declare processUrl.simps [simp del]

text \<open>
  The \<open>catch\<close> block of \<open>processBatch\<close>: count the failure, record the error, record the
  URL as failed. An exception of \<open>recordError\<close> leaves the block, and the batch.
\<close>

definition catch_url :: "string \<Rightarrow> string \<Rightarrow> indexer \<Rightarrow> unit outcome \<times> indexer" where
  "catch_url url error s =
     (let st = indexer_stats s;
          s1 = s\<lparr>indexer_stats := st\<lparr>urlsFailed := urlsFailed st + 1,
                                      urlsProcessed := urlsProcessed st + 1\<rparr>\<rparr>
      in case report_error s1 ''URL_PROCESSING_ERROR'' error url of
           (Threw m, s2) \<Rightarrow> (Threw m, s2)
         | (Ok u, s2) \<Rightarrow>
             (let s3 = report_url s2 url ''failed'' error
              in (Ok (),
                  s3\<lparr>indexer_stats := (indexer_stats s3)
                       \<lparr>stats_errors := stats_errors (indexer_stats s3) @ [(url, error)]\<rparr>\<rparr>)))"

text \<open>What \<open>processBatch\<close> does with one URL that is not in \<open>processedUrls\<close>.\<close>

definition process_one :: "options \<Rightarrow> world \<Rightarrow> string \<Rightarrow> indexer \<Rightarrow> unit outcome \<times> indexer" where
  "process_one opts w url s =
     (let s1 = report_url s url ''processing'' []
      in case processUrl opts w url 1 s1 of
           (Ok success, s2) \<Rightarrow>
             (let st = indexer_stats s2;
                  s3 = (if success
                        then report_url (s2\<lparr>indexer_stats :=
                                              st\<lparr>urlsSuccessful := urlsSuccessful st + 1\<rparr>\<rparr>)
                               url ''indexed'' []
                        else report_url (s2\<lparr>indexer_stats :=
                                              st\<lparr>urlsFailed := urlsFailed st + 1\<rparr>\<rparr>)
                               url ''failed'' [])
              in (Ok (),
                  s3\<lparr>indexer_processedUrls := set_add url (indexer_processedUrls s3),
                     indexer_stats := (indexer_stats s3)
                       \<lparr>urlsProcessed := urlsProcessed (indexer_stats s3) + 1\<rparr>\<rparr>))
         | (Threw error, s2) \<Rightarrow> catch_url url error s2)"

fun processBatch :: "options \<Rightarrow> world \<Rightarrow> string list \<Rightarrow> indexer \<Rightarrow> unit outcome \<times> indexer" where
  "processBatch opts w [] s = (Ok (), s)"
| "processBatch opts w (url # urls) s =
     (if url \<in> set (indexer_processedUrls s) then processBatch opts w urls s
      else (case process_one opts w url s of
              (Threw m, s') \<Rightarrow> (Threw m, s')
            | (Ok u, s') \<Rightarrow> processBatch opts w urls s'))"

text \<open>
  \<open>createBatches\<close>: \<open>for (let i = 0; i < array.length; i += batchSize)\<close>. With a batch size
  of 0 and a non-empty array the loop never ends.
\<close>

partial_function (option) createBatches_loop ::
  "'a list \<Rightarrow> nat \<Rightarrow> nat \<Rightarrow> 'a list list \<Rightarrow> 'a list list option" where
  [code]: "createBatches_loop array bsize i batches =
     (if i < length array
      then createBatches_loop array bsize (i + bsize)
             (batches @ [take bsize (drop i array)])
      else Some batches)"

definition createBatches :: "'a list \<Rightarrow> nat \<Rightarrow> 'a list list option" where
  "createBatches array bsize = createBatches_loop array bsize 0 []"

text \<open>
  The loop of \<open>processBatches\<close> over the batches: after each batch the total cost is
  compared with the budget, and the loop is left once the budget is exceeded.
\<close>

fun batches_loop ::
  "options \<Rightarrow> world \<Rightarrow> string list list \<Rightarrow> indexer \<Rightarrow> unit outcome \<times> indexer" where
  "batches_loop opts w [] s = (Ok (), s)"
| "batches_loop opts w (batch # batches) s =
     (case processBatch opts w batch s of
        (Threw m, s') \<Rightarrow> (Threw m, s')
      | (Ok u, s') \<Rightarrow>
          if stats_totalCost (indexer_stats s') > costBudget opts then (Ok (), s')
          else batches_loop opts w batches s')"

definition processBatches ::
  "options \<Rightarrow> world \<Rightarrow> string list \<Rightarrow> indexer \<Rightarrow> (unit outcome \<times> indexer) option" where
  "processBatches opts w urls s =
     (case createBatches urls (batchSize opts) of
        None \<Rightarrow> None
      | Some batches \<Rightarrow> Some (batches_loop opts w batches s))"


section \<open>Notions used in the statements\<close>

text \<open>The content of a chunk record is its text, or is missing.\<close>

definition text_or_absent :: "js_value \<Rightarrow> bool" where
  "text_or_absent v = (case v of JString s \<Rightarrow> True | JUndefined \<Rightarrow> True | _ \<Rightarrow> False)"

text \<open>
  The violations a quality assessment looks for, stated on the chunk record itself: its
  text (empty when the record has none) and its title, headings and language. The three
  ratios are quotients of counts, computed as the source computes them, on doubles.
\<close>

definition chunk_text :: "js_object \<Rightarrow> string" where
  "chunk_text chunk = (case get_prop chunk ''content'' of JString s \<Rightarrow> s | _ \<Rightarrow> [])"

definition unique_word_ratio :: "string \<Rightarrow> rat" where
  "unique_word_ratio t =
     double_div (of_nat (card (set (split_regex js_whitespace t))))
                (of_nat (length (split_regex js_whitespace t)))"

definition meaningful_word_ratio :: "string \<Rightarrow> rat" where
  "meaningful_word_ratio t =
     double_div (of_nat (length (filter meaningful (split_regex js_whitespace t))))
                (of_nat (length (split_regex js_whitespace t)))"

definition mean_sentence_length :: "string \<Rightarrow> rat" where
  "mean_sentence_length t =
     double_div (of_nat (length t)) (of_nat (length (split_regex sentence_end t)))"

text \<open>Every check with the issue it reports, in the order of the report.\<close>

definition quality_checks :: "js_object \<Rightarrow> (bool \<times> string) list" where
  "quality_checks chunk =
     (let t = chunk_text chunk;
          title = get_prop chunk ''title'';
          headings = get_prop chunk ''headings'';
          language = get_prop chunk ''language''
      in [(length t < 50, ''Content too short''),
          (length t > 2000, ''Content too long''),
          (t \<noteq> [] \<and> unique_word_ratio t < round_double (3 / 10),
             ''Highly repetitive content''),
          (t \<noteq> [] \<and> meaningful_word_ratio t < round_double (4 / 10),
             ''Low meaningful content ratio''),
          (t \<noteq> [] \<and> mean_sentence_length t < 10,
             ''Very short sentences, possibly fragmented content''),
          (\<not> truthy title \<or> length_below title 10, ''Missing or poor title''),
          (\<not> truthy headings \<or> js_length headings = Some 0,
             ''No structural headings found''),
          (\<not> truthy language \<or> language = JString ''unknown'', ''Language not detected'')])"

definition detected_violations :: "js_object \<Rightarrow> string list" where
  "detected_violations chunk = map snd (filter fst (quality_checks chunk))"

text \<open>
  The score after the penalties of a list of issues: starting at 1, one subtraction on
  doubles per issue, in order.
\<close>

definition penalised :: "string list \<Rightarrow> rat" where
  "penalised found = foldl double_sub 1 (map issue_penalty found)"

definition tallied :: "assessment \<Rightarrow> bool" where
  "tallied a = (score a = penalised (issues a))"

text \<open>The first two steps of \<open>runCompleteQA\<close> on a fresh validator.\<close>

definition duplication_check :: "match list \<Rightarrow> duplicate_pair list outcome" where
  "duplication_check matches =
     (case verifyContentQuality matches [] of
        Threw e \<Rightarrow> Threw e
      | Ok contentVerification \<Rightarrow> analyzeDuplication contentVerification)"

definition counts_ok :: "session \<Rightarrow> bool" where
  "counts_ok s = (pagesProcessed (stats s) = pagesIndexed (stats s) + pagesFailed (stats s))"

definition all_sessions :: "(session \<Rightarrow> bool) \<Rightarrow> tracker \<Rightarrow> bool" where
  "all_sessions P t = (\<forall>sid s. map_of (sessions t) sid = Some s \<longrightarrow> P s)"



definition type_error :: string where
  "type_error = ''TypeError: Cannot read properties of undefined (reading toLowerCase)''"

text \<open>An attempt whose page loads and whose extracted text is under 100 characters.\<close>

definition insufficient :: "attempt_env \<Rightarrow> bool" where
  "insufficient e =
     (goto_error e = None \<and>
      (case extracted e of
         Ok None \<Rightarrow> True
       | Ok (Some content) \<Rightarrow> length (content_text content) < 100
       | Threw m \<Rightarrow> False))"

definition status_count :: "string \<Rightarrow> indexer \<Rightarrow> nat" where
  "status_count st s =
     length (filter (\<lambda>r. rec_status r = st) (data_urls (indexer_reporter s)))"


section \<open>Concrete inputs\<close>

definition sample_a :: match where
  "sample_a =
     \<lparr>match_id = ''guimera-p1-100-0'',
      metadata =
        [(''content'', JString ''La vila de Guimera conserva un nucli medieval amb carrers costeruts''),
         (''url'', JString ''https://www.guimera.info/historia''),
         (''title'', JString ''Guimera - Historia''),
         (''source'', JString ''guimera.info''),
         (''headings'', JStrings [''Historia'']),
         (''language'', JString ''ca'')]\<rparr>"

definition sample_b :: match where
  "sample_b = sample_a\<lparr>match_id := ''guimera-p1-101-0''\<rparr>"

text \<open>
  A record with a sound text and no title, headings or language, and one whose short text
  repeats a single word.
\<close>

definition untitled_chunk :: js_object where
  "untitled_chunk =
     [(''content'', JString ''La vila de Guimera conserva un nucli medieval amb carrers costeruts''),
      (''url'', JString ''https://www.guimera.info/historia'')]"

definition repetitive_chunk :: js_object where
  "repetitive_chunk =
     [(''content'', JString ''a a a a a a a a''),
      (''url'', JString ''https://www.guimera.info/historia'')]"

definition demo_calls :: "tracker_call list" where
  "demo_calls =
     [StartIndexingSession ''guimera'' 1000,
      RecordDiscoveredUrls ''guimera_1000'' [''/a'', ''/b'', ''/c'', ''/a''],
      RecordProcessingStart ''guimera_1000'' ''/a'',
      RecordProcessingSuccess ''guimera_1000'' ''/a''
        \<lparr>result_chunks = Some 3, result_tokens = Some 1500, result_title = Some ''A'',
         result_contentLength = Some 2400, result_quality = None,
         result_embeddingCost = Some (1 / 1000), result_embeddingTokens = Some 1500,
         result_apiCalls = None\<rparr>,
      RecordProcessingStart ''guimera_1000'' ''/b'',
      RecordProcessingFailure ''guimera_1000'' ''/b'' ''timeout of 30000ms exceeded'' 3,
      RecordSkippedUrl ''guimera_1000'' ''/c'' ''binary file'']"

definition demo_result :: processing_result where
  "demo_result =
     \<lparr>result_chunks = Some 2, result_tokens = Some 900, result_title = Some ''D'',
      result_contentLength = Some 1800, result_quality = Some ''good'',
      result_embeddingCost = None, result_embeddingTokens = None, result_apiCalls = None\<rparr>"


definition demo_options :: options where
  "demo_options = \<lparr>maxPages = 100, batchSize = 2, delayMs = 2000, retryAttempts = 3,
                     costBudget = 50, testMode = False\<rparr>"

definition demo_content :: "string \<Rightarrow> page_content" where
  "demo_content body =
     \<lparr>content_title = ''Guimera'', content_text = body,
      content_language = ''ca'', content_author = ''Guimera Official'',
      content_publishedDate = None, content_description = None,
      content_headings = [''Historia'']\<rparr>"

text \<open>
  A page that loads, with the given body text, split into one chunk and embedded in two
  dimensions; the clock reads \<open>100 + k\<close> at navigation \<open>k\<close>.
\<close>

definition demo_page :: "nat \<Rightarrow> string \<Rightarrow> attempt_env" where
  "demo_page k body =
     \<lparr>goto_error = None,
      extracted = Ok (Some (demo_content body)),
      splitText = (\<lambda>t. Ok [t]),
      embeddings_create = (\<lambda>chunks. Ok (map (\<lambda>c. [1 / 2, 1 / 4]) chunks)),
      date_now = (\<lambda>i. 100 + k),
      iso_now = (\<lambda>i. ''2023-11-14T22:13:20.000Z''),
      upsert_error = None\<rparr>"

definition unreachable_page :: attempt_env where
  "unreachable_page = (demo_page 0 [])\<lparr>goto_error := Some ''net::ERR_CONNECTION_REFUSED''\<rparr>"

definition long_body :: string where
  "long_body = replicate 120 (CHR ''a'')"

definition short_body :: string where
  "short_body = replicate 40 (CHR ''a'')"

definition five_pages :: "string list" where
  "five_pages = [''/p1'', ''/p2'', ''/p3'', ''/p4'', ''/p5'']"

definition three_pages :: "string list" where
  "three_pages = [''/p1'', ''/p2'', ''/p3'']"

text \<open>A site whose fifth page has 40 characters of text.\<close>

definition site_short_p5 :: world where
  "site_short_p5 k url = demo_page k (if url = ''/p5'' then short_body else long_body)"

text \<open>A site whose first page refuses every connection.\<close>

definition site_down_p1 :: world where
  "site_down_p1 k url = (if url = ''/p1'' then unreachable_page else demo_page k long_body)"

definition site_ok :: world where
  "site_ok k url = demo_page k long_body"

definition tight_options :: options where
  "tight_options = demo_options\<lparr>batchSize := 1, costBudget := 1 / 10000\<rparr>"

definition test_options :: options where
  "test_options = demo_options\<lparr>testMode := True\<rparr>"

definition fresh :: indexer where
  "fresh = new_indexer ''guimera-phase1-1''"

definition scenario_a :: "(unit outcome \<times> indexer) option" where
  "scenario_a = processBatches demo_options site_short_p5 five_pages fresh"

definition down_batch :: "unit outcome \<times> indexer" where
  "down_batch = processBatch demo_options site_down_p1 [''/p1''] fresh"

definition down_run :: "(unit outcome \<times> indexer) option" where
  "down_run = processBatches demo_options site_down_p1 three_pages fresh"

definition budget_run :: "unit outcome \<times> indexer" where
  "budget_run = the (processBatches tight_options site_ok three_pages fresh)"

definition indexed_once :: indexer where
  "indexed_once =
     snd (indexChunks demo_options (demo_page 0 long_body) [long_body] [[1 / 2, 1 / 4]]
            (demo_content long_body) ''/p1'' fresh)"

definition indexed_twice :: indexer where
  "indexed_twice =
     snd (indexChunks demo_options (demo_page 50 long_body) [long_body] [[1 / 2, 1 / 4]]
            (demo_content long_body) ''/p1'' indexed_once)"


section \<open>Rounding to a double\<close>

text \<open>
  Rounding keeps the sign, and a positive number below a power of two is not rounded past
  it; so the rounded value of a number at most 1 is at most 1.
\<close>

lemma pow2_power_int: "pow2 e = power_int 2 e"
  by (simp add: pow2_def power_int_def field_simps)

lemma pow2_pos: "0 < pow2 e"
  by (simp add: pow2_power_int)

lemma pow2_add: "pow2 (a + b) = pow2 a * pow2 b"
  by (simp add: pow2_power_int power_int_add)

lemma pow2_mono: "a \<le> b \<Longrightarrow> pow2 a \<le> pow2 b"
  by (simp add: pow2_power_int power_int_increasing)

lemma pow2_strict_mono: "a < b \<Longrightarrow> pow2 a < pow2 b"
  by (simp add: pow2_power_int power_int_strict_increasing)

lemma pow2_of_int: "0 \<le> e \<Longrightarrow> pow2 e = of_int (2 ^ nat e)"
  by (simp add: pow2_def)

lemma round_half_even_le: "x \<le> of_int N \<Longrightarrow> round_half_even x \<le> N"
proof -
  assume x: "x \<le> of_int N"
  have f: "\<lfloor>x\<rfloor> \<le> N" using x by (simp add: floor_le_iff)
  show ?thesis
  proof (cases "x - of_int \<lfloor>x\<rfloor> < 1 / 2")
    case True
    then show ?thesis using f by (simp add: round_half_even_def Let_def)
  next
    case False
    then have nz: "of_int \<lfloor>x\<rfloor> < x" by linarith
    have "\<lfloor>x\<rfloor> \<noteq> N"
    proof
      assume "\<lfloor>x\<rfloor> = N"
      with nz x show False by simp
    qed
    with f have "\<lfloor>x\<rfloor> + 1 \<le> N" by simp
    then show ?thesis using f by (simp add: round_half_even_def Let_def)
  qed
qed

lemma round_half_even_nonneg: "0 \<le> x \<Longrightarrow> 0 \<le> round_half_even x"
  by (simp add: round_half_even_def Let_def)

lemma bitlen_pow2_bounds:
  assumes "0 < n"
  shows "pow2 (bitlen n - 1) \<le> of_int n" and "of_int n < pow2 (bitlen n)"
proof -
  have p: "1 \<le> bitlen n" using assms by (auto simp: bitlen_alt_def)
  have b: "2 ^ nat (bitlen n - 1) \<le> n" "n < 2 ^ nat (bitlen n)"
    using bitlen_bounds[OF assms] by auto
  have "pow2 (bitlen n - 1) = of_int (2 ^ nat (bitlen n - 1))"
    using p by (intro pow2_of_int) simp
  also have "\<dots> \<le> of_int n" using b(1) by (simp only: of_int_le_iff)
  finally show "pow2 (bitlen n - 1) \<le> of_int n" .
  have "(of_int n :: rat) < of_int (2 ^ nat (bitlen n))"
    using b(2) by (simp only: of_int_less_iff)
  also have "\<dots> = pow2 (bitlen n)"
    using p by (intro pow2_of_int[symmetric]) simp
  finally show "of_int n < pow2 (bitlen n)" .
qed

lemma binary_exponent_bounds:
  assumes "0 < a"
  shows "pow2 (binary_exponent a) \<le> a" and "a < pow2 (binary_exponent a + 1)"
proof -
  obtain n d where q: "quotient_of a = (n, d)" by (cases "quotient_of a")
  have d: "0 < d" using q by (rule quotient_of_denom_pos)
  have a: "a = of_int n / of_int d" using q by (rule quotient_of_div)
  have n: "0 < n" using assms a d by (simp add: zero_less_divide_iff)
  let ?k = "bitlen n - bitlen d"
  note rn = bitlen_pow2_bounds[OF n]
  note rd = bitlen_pow2_bounds[OF d]
  have dpos: "0 < (of_int d :: rat)" using d by simp
  have up: "a < pow2 (?k + 1)"
  proof -
    have "of_int n < pow2 (bitlen n)" by (rule rn(2))
    also have "\<dots> = pow2 (?k + 1) * pow2 (bitlen d - 1)"
      by (simp add: pow2_add[symmetric])
    also have "\<dots> \<le> pow2 (?k + 1) * of_int d"
      using rd(1) pow2_pos[of "?k + 1"] by (simp add: mult_left_mono)
    finally show ?thesis using dpos by (simp add: a pos_divide_less_eq)
  qed
  have lo: "pow2 (?k - 1) < a"
  proof -
    have "pow2 (?k - 1) * of_int d < pow2 (?k - 1) * pow2 (bitlen d)"
      using rd(2) pow2_pos[of "?k - 1"] by (simp add: mult_strict_left_mono)
    also have "\<dots> = pow2 (bitlen n - 1)"
      by (simp add: pow2_add[symmetric])
    also have "\<dots> \<le> of_int n" by (rule rn(1))
    finally show ?thesis using dpos by (simp add: a pos_less_divide_eq)
  qed
  have be: "binary_exponent a = (if pow2 ?k \<le> a then ?k else ?k - 1)"
    by (simp add: binary_exponent_def q Let_def)
  show "pow2 (binary_exponent a) \<le> a"
    using lo unfolding be by (simp add: less_imp_le)
  show "a < pow2 (binary_exponent a + 1)"
    using up unfolding be by (simp add: not_le)
qed

lemma round_double_nonneg: "0 \<le> q \<Longrightarrow> 0 \<le> round_double q"
proof (cases "q = 0")
  case True
  then show ?thesis by (simp add: round_double_def)
next
  case False
  assume "0 \<le> q"
  with False have pos: "0 < q" by simp
  let ?e = "max (binary_exponent \<bar>q\<bar>) (- 1022)"
  have "0 \<le> \<bar>q\<bar> / pow2 (?e - 52)"
    using pow2_pos[of "?e - 52"] by (simp add: divide_nonneg_pos)
  then have "0 \<le> round_half_even (\<bar>q\<bar> / pow2 (?e - 52))"
    by (rule round_half_even_nonneg)
  then have "0 \<le> (of_int (round_half_even (\<bar>q\<bar> / pow2 (?e - 52))) :: rat) * pow2 (?e - 52)"
    using pow2_pos[of "?e - 52"] by (simp add: less_imp_le)
  then show ?thesis using pos False
    by (simp add: round_double_def Let_def)
qed

lemma round_double_nonpos: "q \<le> 0 \<Longrightarrow> round_double q \<le> 0"
proof (cases "q = 0")
  case True
  then show ?thesis by (simp add: round_double_def)
next
  case False
  assume "q \<le> 0"
  with False have neg: "q < 0" by simp
  let ?e = "max (binary_exponent \<bar>q\<bar>) (- 1022)"
  have "0 \<le> \<bar>q\<bar> / pow2 (?e - 52)"
    using pow2_pos[of "?e - 52"] by (simp add: divide_nonneg_pos)
  then have "0 \<le> round_half_even (\<bar>q\<bar> / pow2 (?e - 52))"
    by (rule round_half_even_nonneg)
  then have "0 \<le> (of_int (round_half_even (\<bar>q\<bar> / pow2 (?e - 52))) :: rat) * pow2 (?e - 52)"
    using pow2_pos[of "?e - 52"] by (simp add: less_imp_le)
  then show ?thesis using neg False
    by (simp add: round_double_def Let_def)
qed

lemma round_double_below_pow2:
  assumes "0 < q" and "q < pow2 k" and "- 1022 < k"
  shows "round_double q \<le> pow2 k"
proof -
  let ?be = "binary_exponent q"
  let ?e = "max ?be (- 1022)"
  let ?ulp = "pow2 (?e - 52)"
  have b: "pow2 ?be \<le> q" "q < pow2 (?be + 1)"
    using binary_exponent_bounds[OF assms(1)] by auto
  have "?be < k"
  proof (rule ccontr)
    assume "\<not> ?be < k"
    then have "pow2 k \<le> pow2 ?be" by (intro pow2_mono) simp
    with b(1) assms(2) show False by simp
  qed
  then have e: "?e + 1 \<le> k" using assms(3) by simp
  have u: "0 < ?ulp" by (rule pow2_pos)
  have "pow2 (?be + 1) \<le> pow2 (?e + 1)" by (intro pow2_mono) simp
  with b(2) have "q < pow2 (?e + 1)" by simp
  also have "\<dots> = pow2 53 * ?ulp" by (simp add: pow2_add[symmetric] add.commute)
  finally have "q / ?ulp \<le> pow2 53"
    using u by (simp add: pos_divide_le_eq less_imp_le)
  also have "pow2 53 = of_int (2 ^ 53)" by (simp add: pow2_def)
  finally have "round_half_even (q / ?ulp) \<le> 2 ^ 53" by (rule round_half_even_le)
  then have "(of_int (round_half_even (q / ?ulp)) :: rat) \<le> of_int (2 ^ 53)"
    by (simp only: of_int_le_iff)
  then have "of_int (round_half_even (q / ?ulp)) * ?ulp \<le> of_int (2 ^ 53) * ?ulp"
    using u by (intro mult_right_mono) (simp_all add: less_imp_le)
  also have "of_int (2 ^ 53) = pow2 53" by (simp add: pow2_def)
  also have "pow2 53 * ?ulp = pow2 (?e + 1)" by (simp add: pow2_add[symmetric] add.commute)
  also have "\<dots> \<le> pow2 k" using e by (rule pow2_mono)
  finally have "of_int (round_half_even (q / ?ulp)) * ?ulp \<le> pow2 k" .
  then show ?thesis using assms(1) by (simp add: round_double_def Let_def)
qed

lemma round_double_one: "round_double 1 = 1"
  by code_simp

lemma round_double_le_one: "q \<le> 1 \<Longrightarrow> round_double q \<le> 1"
proof -
  assume q: "q \<le> 1"
  consider "q \<le> 0" | "0 < q" "q < 1" | "q = 1" using q by linarith
  then show ?thesis
  proof cases
    case 1
    then have "round_double q \<le> 0" by (rule round_double_nonpos)
    then show ?thesis by simp
  next
    case 2
    have "q < pow2 0" using 2 by (simp add: pow2_def)
    from round_double_below_pow2[OF 2(1) this] show ?thesis by (simp add: pow2_def)
  next
    case 3
    then show ?thesis by (simp add: round_double_one)
  qed
qed


section \<open>Content quality score\<close>

lemma issue_penalty_nonneg: "0 \<le> issue_penalty i"
  by (simp add: issue_penalty_def round_double_nonneg)

lemma penalised_snoc:
  "penalised (found @ [i]) = double_sub (penalised found) (issue_penalty i)"
  by (simp add: penalised_def)

lemma penalised_le_one: "penalised found \<le> 1"
proof (induction found rule: rev_induct)
  case Nil
  show ?case by (simp add: penalised_def)
next
  case (snoc i found)
  have "penalised found - issue_penalty i \<le> 1"
    using snoc issue_penalty_nonneg[of i] by simp
  then show ?case
    unfolding penalised_snoc double_sub_def by (rule round_double_le_one)
qed

lemma flag_tallied:
  "issue_penalty i = p \<Longrightarrow> tallied a \<Longrightarrow> tallied (flag c p i r a)"
  by (simp add: flag_def tallied_def penalised_snoc)

lemma content_checks_tallied: "tallied a \<Longrightarrow> tallied (content_checks s a)"
  unfolding content_checks_def Let_def
  by (intro flag_tallied) (simp_all add: issue_penalty_def)

lemma length_checks_tallied: "tallied a \<Longrightarrow> tallied (length_checks v a)"
  unfolding length_checks_def Let_def
  by (intro flag_tallied) (simp_all add: issue_penalty_def)

lemma metadata_checks_tallied: "tallied a \<Longrightarrow> tallied (metadata_checks chunk a)"
  unfolding metadata_checks_def Let_def
  by (intro flag_tallied) (simp_all add: issue_penalty_def)

lemma tallied_init: "tallied \<lparr>score = 1, issues = [], recommendations = []\<rparr>"
  by (simp add: tallied_def penalised_def)

text \<open>A check appends its issue exactly when its condition holds.\<close>

lemma issues_flag: "issues (flag c p i r a) = issues a @ (if c then [i] else [])"
  by (simp add: flag_def)

lemma issues_length_checks:
  "issues (length_checks v a)
     = issues a
       @ (if \<not> truthy v \<or> length_below v minChunkLength then [''Content too short''] else [])
       @ (if truthy v \<and> length_above v maxChunkLength then [''Content too long''] else [])"
  by (simp add: length_checks_def Let_def issues_flag)

lemma issues_content_checks:
  "issues (content_checks s a)
     = issues a
       @ (if unique_word_ratio s < round_double (3 / 10)
          then [''Highly repetitive content''] else [])
       @ (if meaningful_word_ratio s < round_double (4 / 10)
          then [''Low meaningful content ratio''] else [])
       @ (if mean_sentence_length s < 10
          then [''Very short sentences, possibly fragmented content''] else [])"
  by (simp add: content_checks_def Let_def issues_flag unique_word_ratio_def
        meaningful_word_ratio_def mean_sentence_length_def length_remdups_card_conv)

lemma issues_metadata_checks:
  "issues (metadata_checks chunk a)
     = issues a
       @ (if \<not> truthy (get_prop chunk ''title'') \<or> length_below (get_prop chunk ''title'') 10
          then [''Missing or poor title''] else [])
       @ (if \<not> truthy (get_prop chunk ''headings'')
             \<or> js_length (get_prop chunk ''headings'') = Some 0
          then [''No structural headings found''] else [])
       @ (if \<not> truthy (get_prop chunk ''language'')
             \<or> get_prop chunk ''language'' = JString ''unknown''
          then [''Language not detected''] else [])"
  by (simp add: metadata_checks_def Let_def issues_flag)

text \<open>
  With a text or no content the assessment returns: the three groups of checks in turn,
  then the floor.
\<close>

lemma assess_returns:
  assumes "text_or_absent (get_prop chunk ''content'')"
  shows "\<exists>a6. assessContentQuality chunk = Ok (a6\<lparr>score := max 0 (score a6)\<rparr>)
           \<and> tallied a6 \<and> issues a6 = detected_violations chunk"
proof (cases "get_prop chunk ''content''")
  case (JString s)
  let ?a2 = "length_checks (JString s) \<lparr>score = 1, issues = [], recommendations = []\<rparr>"
  show ?thesis
  proof (cases "s = []")
    case True
    let ?a6 = "metadata_checks chunk ?a2"
    have r: "assessContentQuality chunk = Ok (?a6\<lparr>score := max 0 (score ?a6)\<rparr>)"
      using JString True by (simp add: assessContentQuality_def Let_def)
    have t: "tallied ?a6"
      by (intro metadata_checks_tallied length_checks_tallied tallied_init)
    have i: "issues ?a6 = detected_violations chunk"
      using JString True
      by (simp add: issues_metadata_checks issues_length_checks detected_violations_def
            quality_checks_def chunk_text_def Let_def length_below_def length_above_def
            minChunkLength_def maxChunkLength_def)
    from r t i show ?thesis by blast
  next
    case False
    let ?a6 = "metadata_checks chunk (content_checks s ?a2)"
    have r: "assessContentQuality chunk = Ok (?a6\<lparr>score := max 0 (score ?a6)\<rparr>)"
      using JString False by (simp add: assessContentQuality_def Let_def)
    have t: "tallied ?a6"
      by (intro metadata_checks_tallied content_checks_tallied length_checks_tallied
            tallied_init)
    have i: "issues ?a6 = detected_violations chunk"
      using JString False
      by (simp add: issues_metadata_checks issues_content_checks issues_length_checks
            detected_violations_def quality_checks_def chunk_text_def Let_def
            length_below_def length_above_def minChunkLength_def maxChunkLength_def)
    from r t i show ?thesis by blast
  qed
next
  case JUndefined
  let ?a2 = "length_checks JUndefined \<lparr>score = 1, issues = [], recommendations = []\<rparr>"
  let ?a6 = "metadata_checks chunk ?a2"
  have r: "assessContentQuality chunk = Ok (?a6\<lparr>score := max 0 (score ?a6)\<rparr>)"
    using JUndefined by (simp add: assessContentQuality_def Let_def)
  have t: "tallied ?a6"
    by (intro metadata_checks_tallied length_checks_tallied tallied_init)
  have i: "issues ?a6 = detected_violations chunk"
    using JUndefined
    by (simp add: issues_metadata_checks issues_length_checks detected_violations_def
          quality_checks_def chunk_text_def Let_def length_below_def length_above_def
          minChunkLength_def maxChunkLength_def)
  from r t i show ?thesis by blast
qed (use assms in \<open>simp_all add: text_or_absent_def\<close>)

text \<open>
  Claim C9. For every chunk record (its content a text, or missing),
  \<open>assessContentQuality\<close> returns an assessment that lists exactly the violations the
  record shows (text shorter than 50 or longer than 2000 characters, unique-word ratio
  below 0.3, meaningful-word ratio below 0.4, mean sentence length below 10, title missing
  or shorter than 10, no headings, language missing or unknown), in that order. Its score
  starts at 1, loses the fixed penalty of each of these violations, one subtraction on
  doubles after the other, and is floored at 0; the score lies in the interval from 0 to 1.
\<close>

theorem C9_quality_score_bounds:
  assumes "text_or_absent (get_prop chunk ''content'')"
  shows "\<exists>a. assessContentQuality chunk = Ok a
     \<and> issues a = detected_violations chunk
     \<and> score a = max 0 (foldl double_sub 1 (map issue_penalty (detected_violations chunk)))
     \<and> 0 \<le> score a \<and> score a \<le> 1"
proof -
  from assess_returns[OF assms] obtain a6
    where r: "assessContentQuality chunk = Ok (a6\<lparr>score := max 0 (score a6)\<rparr>)"
      and t: "tallied a6" and i: "issues a6 = detected_violations chunk"
    by blast
  let ?a = "a6\<lparr>score := max 0 (score a6)\<rparr>"
  have s: "score a6 = foldl double_sub 1 (map issue_penalty (detected_violations chunk))"
    using t i by (simp add: tallied_def penalised_def)
  have "score a6 \<le> 1" using t penalised_le_one[of "issues a6"] by (simp add: tallied_def)
  then have b: "0 \<le> score ?a" "score ?a \<le> 1" by simp_all
  have "issues ?a = detected_violations chunk" using i by simp
  moreover have "score ?a
      = max 0 (foldl double_sub 1 (map issue_penalty (detected_violations chunk)))"
    using s by simp
  ultimately show ?thesis using r b by blast
qed

theorem C9_quality_score_bounds_witness:
  "text_or_absent (get_prop untitled_chunk ''content'')
   \<and> detected_violations untitled_chunk
       = [''Missing or poor title'', ''No structural headings found'',
          ''Language not detected'']
   \<and> (\<exists>a. assessContentQuality untitled_chunk = Ok a
        \<and> issues a = detected_violations untitled_chunk
        \<and> score a = 6305039478318695 / 9007199254740992
        \<and> 0 \<le> score a \<and> score a \<le> 1)"
proof -
  have h: "text_or_absent (get_prop untitled_chunk ''content'')"
    by code_simp
  have v: "detected_violations untitled_chunk
       = [''Missing or poor title'', ''No structural headings found'',
          ''Language not detected'']"
    by code_simp
  have p: "max 0 (foldl double_sub 1
             (map issue_penalty [''Missing or poor title'', ''No structural headings found'',
                                 ''Language not detected'']))
           = 6305039478318695 / 9007199254740992"
    by code_simp
  from C9_quality_score_bounds[OF h] obtain a
    where "assessContentQuality untitled_chunk = Ok a"
      and "issues a = detected_violations untitled_chunk"
      and "score a = max 0 (foldl double_sub 1
                      (map issue_penalty (detected_violations untitled_chunk)))"
      and "0 \<le> score a" and "score a \<le> 1"
    by blast
  then have "\<exists>a. assessContentQuality untitled_chunk = Ok a
        \<and> issues a = detected_violations untitled_chunk
        \<and> score a = 6305039478318695 / 9007199254740992
        \<and> 0 \<le> score a \<and> score a \<le> 1"
    using v p by auto
  with h v show ?thesis by blast
qed

text \<open>
  Three penalties of 0.1 leave 0.7000000000000001, the double next above the double that
  the literal 0.7 denotes. The empty record loses 0.3 and three times 0.1, which leaves
  the double of the literal 0.4; the repetitive record loses more than 1 and is floored
  at 0.
\<close>

lemma literal_seven_tenths:
  "round_double (7 / 10) = 6305039478318694 / 9007199254740992
   \<and> round_double (4 / 10) = 3602879701896397 / 9007199254740992"
  by code_simp

lemma assess_empty_record:
  "assessContentQuality []
     = Ok \<lparr>score = 3602879701896397 / 9007199254740992,
           issues = [''Content too short'', ''Missing or poor title'',
                     ''No structural headings found'', ''Language not detected''],
           recommendations = [''Consider increasing minimum content length threshold'',
                              ''Improve content extraction to capture headings'']\<rparr>"
  by code_simp

lemma assess_repetitive_record:
  "assessContentQuality repetitive_chunk
     = Ok \<lparr>score = 0,
           issues = [''Content too short'', ''Highly repetitive content'',
                     ''Low meaningful content ratio'', ''Missing or poor title'',
                     ''No structural headings found'', ''Language not detected''],
           recommendations = [''Consider increasing minimum content length threshold'',
                              ''Improve content extraction to capture headings'']\<rparr>"
  by code_simp

text \<open>A content that is neither a text nor falsy has no \<open>split\<close>: the assessment throws.\<close>

lemma assess_throws_without_text:
  assumes "truthy (get_prop chunk ''content'')" and "\<not> text_or_absent (get_prop chunk ''content'')"
  shows "assessContentQuality chunk = Threw ''TypeError: chunk.content.split is not a function''"
  using assms
  by (cases "get_prop chunk ''content''")
     (simp_all add: assessContentQuality_def Let_def text_or_absent_def)


section \<open>Duplicate detection\<close>

lemma entry_no_content: "get_prop (verification_entry m a) ''content'' = JUndefined"
  by (simp add: verification_entry_def get_prop_def Let_def)

lemma similarity_no_content:
  "get_prop c1 ''content'' = JUndefined \<Longrightarrow> get_prop c2 ''content'' = JUndefined \<Longrightarrow>
   calculateContentSimilarity c1 c2 = Ok 0"
  by (auto simp: calculateContentSimilarity_def lowered_content_def Let_def
           split: outcome.splits)

lemma inner_loop_no_content:
  "\<forall>c \<in> set cv. get_prop c ''content'' = JUndefined \<Longrightarrow> i < length cv \<Longrightarrow>
   \<forall>j \<in> set js. j < length cv \<Longrightarrow> inner_loop cv i js acc = Ok acc"
proof (induction js arbitrary: acc)
  case Nil
  then show ?case by simp
next
  case (Cons j js)
  obtain d p where acc: "acc = (d, p)" by (cases acc)
  have "calculateContentSimilarity (cv ! i) (cv ! j) = Ok 0"
    using Cons.prems by (intro similarity_no_content) auto
  then show ?case using Cons acc by (simp add: similarityThreshold_def)
qed

lemma outer_loop_no_content:
  "\<forall>c \<in> set cv. get_prop c ''content'' = JUndefined \<Longrightarrow>
   \<forall>i \<in> set is. i < length cv \<Longrightarrow> outer_loop cv is acc = Ok acc"
proof (induction "is" arbitrary: acc)
  case Nil
  then show ?case by simp
next
  case (Cons i "is")
  obtain d p where acc: "acc = (d, p)" by (cases acc)
  have "inner_loop cv i [Suc i..<length cv] (d, p) = Ok (d, p)"
    using Cons.prems by (intro inner_loop_no_content) auto
  then show ?case using Cons acc by simp
qed

lemma verify_entries:
  "verifyContentQuality ms cv0 = Ok cv \<Longrightarrow>
   \<forall>c \<in> set cv0. get_prop c ''content'' = JUndefined \<Longrightarrow>
   \<forall>c \<in> set cv. get_prop c ''content'' = JUndefined"
proof (induction ms arbitrary: cv0)
  case Nil
  then show ?case by simp
next
  case (Cons m ms)
  then show ?case
    by (auto simp: entry_no_content split: outcome.splits)
qed

text \<open>
  The entries \<open>verifyContentQuality\<close> pushes carry \<open>contentLength\<close> but not the content, so
  \<open>calculateContentSimilarity\<close> reads two undefined contents and returns 0 for every pair:
  on a fresh validator \<open>analyzeDuplication\<close> never flags anything.
\<close>

lemma analyzeDuplication_never_flags:
  assumes "verifyContentQuality ms [] = Ok cv"
  shows "analyzeDuplication cv = Ok []"
proof -
  have "\<forall>c \<in> set cv. get_prop c ''content'' = JUndefined"
    using verify_entries[OF assms] by simp
  then have "outer_loop cv [0..<length cv] ([], []) = Ok ([], [])"
    by (intro outer_loop_no_content) auto
  then show ?thesis by (simp add: analyzeDuplication_def)
qed

text \<open>
  Claim C1. Two sampled chunks with identical text should be flagged as duplicates. On the
  two samples below, whose metadata (and so whose text) is the same, the similarity of the
  metadata records is 1, yet the duplicate analysis of the sampled records returns no
  pair.
\<close>

theorem C1_identical_chunks_not_flagged:
  "metadata sample_a = metadata sample_b
   \<and> calculateContentSimilarity (metadata sample_a) (metadata sample_b) = Ok 1
   \<and> duplication_check [sample_a, sample_b] = Ok []"
  by code_simp


section \<open>Tracker counters\<close>

lemma all_sessions_with_session:
  assumes "all_sessions P t" and "\<And>s. P s \<Longrightarrow> P (f s)"
  shows "all_sessions P (with_session t sid f)"
  using assms
  by (auto simp: all_sessions_def with_session_def update_conv' split: option.splits if_splits)

lemma discover_loop_stats: "stats (fst (discover_loop urls s acc)) = stats s"
  by (induction urls s acc rule: discover_loop.induct) auto

lemma all_sessions_update:
  assumes "all_sessions P t" and "P s"
  shows "all_sessions P (t\<lparr>sessions := AList.update sid s (sessions t)\<rparr>)"
  using assms by (simp add: all_sessions_def update_conv')

lemma all_sessions_start:
  assumes "all_sessions counts_ok t"
  shows "all_sessions counts_ok (fst (startIndexingSession t source now))"
proof -
  have "all_sessions counts_ok
          (t\<lparr>sessions := AList.update sid s (sessions t), currentSession := c\<rparr>)"
    if "counts_ok s" for sid s c
    using assms that by (simp add: all_sessions_def update_conv')
  then show ?thesis
    by (simp add: startIndexingSession_def Let_def counts_ok_def)
qed

lemma all_sessions_end:
  assumes "all_sessions counts_ok t"
  shows "all_sessions counts_ok (endIndexingSession t sid st)"
proof (cases "map_of (sessions t) sid")
  case None
  then show ?thesis using assms by (simp add: endIndexingSession_def)
next
  case (Some s)
  then have "counts_ok (s\<lparr>status := st\<rparr>)"
    using assms by (simp add: all_sessions_def counts_ok_def)
  then show ?thesis
    using assms Some by (simp add: endIndexingSession_def Let_def all_sessions_def update_conv')
qed

lemma all_sessions_discovered:
  assumes "all_sessions counts_ok t"
  shows "all_sessions counts_ok (fst (recordDiscoveredUrls t sid urls))"
proof (cases "map_of (sessions t) sid")
  case None
  then show ?thesis using assms by (simp add: recordDiscoveredUrls_def)
next
  case (Some s)
  obtain s1 newUrls where d: "discover_loop urls s [] = (s1, newUrls)"
    by (cases "discover_loop urls s []")
  have "stats s1 = stats s"
    using discover_loop_stats[of urls s "[]"] d by simp
  moreover have "counts_ok s" using assms Some by (simp add: all_sessions_def)
  ultimately have "counts_ok (s1\<lparr>stats := (stats s1)\<lparr>pagesDiscovered :=
                                   pagesDiscovered (stats s1) + length newUrls\<rparr>\<rparr>)"
    by (simp add: counts_ok_def)
  then show ?thesis
    using assms Some d by (simp add: recordDiscoveredUrls_def all_sessions_update)
qed

lemma success_counts:
  "map_of (sessions t) sid = Some s \<Longrightarrow>
   \<exists>s'. map_of (sessions (recordProcessingSuccess t sid url result)) sid = Some s'
     \<and> pagesProcessed (stats s') = pagesProcessed (stats s) + 1
     \<and> pagesIndexed (stats s') = pagesIndexed (stats s) + 1
     \<and> pagesFailed (stats s') = pagesFailed (stats s)
     \<and> pagesSkipped (stats s') = pagesSkipped (stats s)"
  by (simp add: recordProcessingSuccess_def with_session_def update_conv' Let_def
           split: option.splits)

lemma failure_counts:
  "map_of (sessions t) sid = Some s \<Longrightarrow>
   \<exists>s'. map_of (sessions (recordProcessingFailure t sid url error attempt)) sid = Some s'
     \<and> pagesProcessed (stats s') = pagesProcessed (stats s) + 1
     \<and> pagesFailed (stats s') = pagesFailed (stats s) + 1
     \<and> pagesIndexed (stats s') = pagesIndexed (stats s)
     \<and> pagesSkipped (stats s') = pagesSkipped (stats s)"
  by (simp add: recordProcessingFailure_def with_session_def update_conv' Let_def)

lemma skipped_counts:
  "map_of (sessions t) sid = Some s \<Longrightarrow>
   \<exists>s'. map_of (sessions (recordSkippedUrl t sid url reason)) sid = Some s'
     \<and> pagesSkipped (stats s') = pagesSkipped (stats s) + 1
     \<and> pagesProcessed (stats s') = pagesProcessed (stats s)
     \<and> pagesIndexed (stats s') = pagesIndexed (stats s)
     \<and> pagesFailed (stats s') = pagesFailed (stats s)"
  by (simp add: recordSkippedUrl_def with_session_def update_conv')

lemma all_sessions_call:
  assumes "all_sessions counts_ok t"
  shows "all_sessions counts_ok (call t c)"
proof (cases c)
  case (StartIndexingSession source now)
  then show ?thesis using assms by (simp add: all_sessions_start)
next
  case (EndIndexingSession sid st)
  then show ?thesis using assms by (simp add: all_sessions_end)
next
  case (RecordDiscoveredUrls sid urls)
  then show ?thesis using assms by (simp add: all_sessions_discovered)
next
  case (RecordProcessingStart sid url)
  have "counts_ok (s\<lparr>queuedUrls := q\<rparr>)" if "counts_ok s" for s q
    using that by (simp add: counts_ok_def)
  then show ?thesis using assms RecordProcessingStart
    by (simp add: recordProcessingStart_def all_sessions_with_session)
next
  case (RecordProcessingSuccess sid url result)
  show ?thesis using assms RecordProcessingSuccess
    apply (simp add: recordProcessingSuccess_def)
    apply (rule all_sessions_with_session, assumption)
    apply (simp add: counts_ok_def Let_def split: option.splits)
    done
next
  case (RecordProcessingFailure sid url error attempt)
  show ?thesis using assms RecordProcessingFailure
    apply (simp add: recordProcessingFailure_def)
    apply (rule all_sessions_with_session, assumption)
    apply (simp add: counts_ok_def Let_def)
    done
next
  case (RecordSkippedUrl sid url reason)
  show ?thesis using assms RecordSkippedUrl
    apply (simp add: recordSkippedUrl_def)
    apply (rule all_sessions_with_session, assumption)
    apply (simp add: counts_ok_def)
    done
next
  case (RecordDuplicateContent sid url similarUrl)
  show ?thesis using assms RecordDuplicateContent
    apply (simp add: recordDuplicateContent_def)
    apply (rule all_sessions_with_session, assumption)
    apply (simp add: counts_ok_def)
    done
next
  case (RecordLowQualityContent sid url reason sc)
  show ?thesis using assms RecordLowQualityContent
    apply (simp add: recordLowQualityContent_def)
    apply (rule all_sessions_with_session, assumption)
    apply (simp add: counts_ok_def)
    done
qed

lemma all_sessions_calls:
  "all_sessions counts_ok t \<Longrightarrow> all_sessions counts_ok (calls t cs)"
  unfolding calls_def
  by (induction cs arbitrary: t) (auto intro: all_sessions_call)

lemma all_sessions_new: "all_sessions P new_tracker"
  by (simp add: all_sessions_def new_tracker_def)

text \<open>
  Claim C10. After any sequence of tracker calls, starting from a new tracker, every
  session has \<open>pagesProcessed = pagesIndexed + pagesFailed\<close>. On a known session a success
  adds one to \<open>pagesProcessed\<close> and to \<open>pagesIndexed\<close>, a failure adds one to
  \<open>pagesProcessed\<close> and to \<open>pagesFailed\<close>, and a skip adds one to \<open>pagesSkipped\<close> only.
\<close>

theorem C10_tracker_counting_invariant:
  "(map_of (sessions (calls new_tracker cs)) sid = Some s
      \<longrightarrow> pagesProcessed (stats s) = pagesIndexed (stats s) + pagesFailed (stats s))
   \<and> (map_of (sessions t) sid' = Some s0 \<longrightarrow>
        (\<exists>s1. map_of (sessions (recordProcessingSuccess t sid' url result)) sid' = Some s1
           \<and> pagesProcessed (stats s1) = pagesProcessed (stats s0) + 1
           \<and> pagesIndexed (stats s1) = pagesIndexed (stats s0) + 1
           \<and> pagesFailed (stats s1) = pagesFailed (stats s0)
           \<and> pagesSkipped (stats s1) = pagesSkipped (stats s0))
      \<and> (\<exists>s1. map_of (sessions (recordProcessingFailure t sid' url error attempt)) sid'
                  = Some s1
           \<and> pagesProcessed (stats s1) = pagesProcessed (stats s0) + 1
           \<and> pagesFailed (stats s1) = pagesFailed (stats s0) + 1
           \<and> pagesIndexed (stats s1) = pagesIndexed (stats s0)
           \<and> pagesSkipped (stats s1) = pagesSkipped (stats s0))
      \<and> (\<exists>s1. map_of (sessions (recordSkippedUrl t sid' url reason)) sid' = Some s1
           \<and> pagesSkipped (stats s1) = pagesSkipped (stats s0) + 1
           \<and> pagesProcessed (stats s1) = pagesProcessed (stats s0)
           \<and> pagesIndexed (stats s1) = pagesIndexed (stats s0)
           \<and> pagesFailed (stats s1) = pagesFailed (stats s0)))"
proof (intro conjI impI)
  assume "map_of (sessions (calls new_tracker cs)) sid = Some s"
  moreover have "all_sessions counts_ok (calls new_tracker cs)"
    by (rule all_sessions_calls) (rule all_sessions_new)
  ultimately show "pagesProcessed (stats s) = pagesIndexed (stats s) + pagesFailed (stats s)"
    by (simp add: all_sessions_def counts_ok_def)
next
  assume "map_of (sessions t) sid' = Some s0"
  then show "\<exists>s1. map_of (sessions (recordProcessingSuccess t sid' url result)) sid' = Some s1
           \<and> pagesProcessed (stats s1) = pagesProcessed (stats s0) + 1
           \<and> pagesIndexed (stats s1) = pagesIndexed (stats s0) + 1
           \<and> pagesFailed (stats s1) = pagesFailed (stats s0)
           \<and> pagesSkipped (stats s1) = pagesSkipped (stats s0)"
    by (rule success_counts)
next
  assume "map_of (sessions t) sid' = Some s0"
  then show "\<exists>s1. map_of (sessions (recordProcessingFailure t sid' url error attempt)) sid'
                  = Some s1
           \<and> pagesProcessed (stats s1) = pagesProcessed (stats s0) + 1
           \<and> pagesFailed (stats s1) = pagesFailed (stats s0) + 1
           \<and> pagesIndexed (stats s1) = pagesIndexed (stats s0)
           \<and> pagesSkipped (stats s1) = pagesSkipped (stats s0)"
    by (rule failure_counts)
next
  assume "map_of (sessions t) sid' = Some s0"
  then show "\<exists>s1. map_of (sessions (recordSkippedUrl t sid' url reason)) sid' = Some s1
           \<and> pagesSkipped (stats s1) = pagesSkipped (stats s0) + 1
           \<and> pagesProcessed (stats s1) = pagesProcessed (stats s0)
           \<and> pagesIndexed (stats s1) = pagesIndexed (stats s0)
           \<and> pagesFailed (stats s1) = pagesFailed (stats s0)"
    by (rule skipped_counts)
qed

lemma demo_calls_stats:
  "map_option stats (map_of (sessions (calls new_tracker demo_calls)) ''guimera_1000'')
    = Some \<lparr>pagesDiscovered = 3, pagesProcessed = 2, pagesIndexed = 1, pagesFailed = 1,
           pagesSkipped = 1, chunksCreated = 3, tokensProcessed = 1500,
           errorsEncountered = 1\<rparr>"
  by code_simp

theorem C10_tracker_counting_invariant_witness:
  "\<exists>s. map_of (sessions (calls new_tracker demo_calls)) ''guimera_1000'' = Some s
     \<and> pagesProcessed (stats s) = 2
     \<and> pagesProcessed (stats s) = pagesIndexed (stats s) + pagesFailed (stats s)
     \<and> (\<exists>s1. map_of (sessions (recordProcessingSuccess (calls new_tracker demo_calls)
                                  ''guimera_1000'' ''/d'' demo_result)) ''guimera_1000'' = Some s1
           \<and> pagesProcessed (stats s1) = 3 \<and> pagesIndexed (stats s1) = 2)
     \<and> (\<exists>s1. map_of (sessions (recordProcessingFailure (calls new_tracker demo_calls)
                                  ''guimera_1000'' ''/d'' ''timeout'' 3)) ''guimera_1000'' = Some s1
           \<and> pagesProcessed (stats s1) = 3 \<and> pagesFailed (stats s1) = 2)
     \<and> (\<exists>s1. map_of (sessions (recordSkippedUrl (calls new_tracker demo_calls)
                                  ''guimera_1000'' ''/d'' ''binary file'')) ''guimera_1000'' = Some s1
           \<and> pagesSkipped (stats s1) = 2 \<and> pagesProcessed (stats s1) = 2)"
proof -
  from demo_calls_stats
  obtain s where h: "map_of (sessions (calls new_tracker demo_calls)) ''guimera_1000'' = Some s"
    and st: "stats s = \<lparr>pagesDiscovered = 3, pagesProcessed = 2, pagesIndexed = 1,
                         pagesFailed = 1, pagesSkipped = 1, chunksCreated = 3,
                         tokensProcessed = 1500, errorsEncountered = 1\<rparr>"
    by auto
  from C10_tracker_counting_invariant[of demo_calls "''guimera_1000''" s
         "calls new_tracker demo_calls" "''guimera_1000''" s "''/d''" demo_result
         "''timeout''" 3 "''binary file''"] h st
  show ?thesis by auto
qed


section \<open>Frontier deduplication\<close>













section \<open>Embeddings in test mode\<close>

text \<open>
  Claim C8. With \<open>testMode\<close> on, \<open>createEmbeddings\<close> returns one vector per chunk, each the
  zero vector of 3072 dimensions, whatever the embedding service would answer, and
  leaves the state as it was.
\<close>

theorem C8_test_mode_embeddings:
  "testMode opts \<Longrightarrow>
     createEmbeddings opts e chunks url s
       = (Ok (replicate (length chunks) (replicate 3072 0)), s)
   \<and> createEmbeddings opts e' chunks url s = createEmbeddings opts e chunks url s"
  by (simp add: createEmbeddings_def zero_vector_def map_replicate_const)

theorem C8_test_mode_embeddings_witness:
  "testMode test_options
   \<and> createEmbeddings test_options unreachable_page [''one'', ''two''] ''/p1'' fresh
       = (Ok (replicate (length [''one'', ''two'']) (replicate 3072 0)), fresh)
   \<and> createEmbeddings test_options (demo_page 0 []) [''one'', ''two''] ''/p1'' fresh
       = createEmbeddings test_options unreachable_page [''one'', ''two''] ''/p1'' fresh"
proof -
  have h: "testMode test_options"
    by (simp add: test_options_def demo_options_def)
  from C8_test_mode_embeddings[OF h] h show ?thesis by (rule conjI[rotated])
qed


section \<open>The reporter call of the indexer\<close>

text \<open>
  Every \<open>recordError\<close> call of the indexer passes \<open>message\<close> where the reporter reads
  \<open>error\<close>, so each of them throws and records nothing.
\<close>

lemma report_error_throws: "report_error s errorType message url = (Threw type_error, s)"
  by (simp add: report_error_def recordError_def type_error_def)

lemma report_and_fail_throws: "report_and_fail s errorType message url = (Threw type_error, s)"
  by (simp add: report_and_fail_def report_error_throws)


section \<open>Re-indexing and record ids\<close>

lemma upsert_present_keys:
  "set (map vec_id vs) \<subseteq> set (map fst idx) \<Longrightarrow> map fst (upsert vs idx) = map fst idx"
  unfolding upsert_def
proof (induction vs arbitrary: idx)
  case Nil
  then show ?case by simp
next
  case (Cons v vs)
  then have k: "map fst (AList.update (vec_id v) v idx) = map fst idx"
    by (simp add: update_keys)
  have "set (map vec_id vs) \<subseteq> set (map fst (AList.update (vec_id v) v idx))"
    unfolding k using Cons.prems by simp
  from Cons.IH[OF this] k show ?case by simp
qed

lemma keys_update_mono: "set (map fst al) \<subseteq> set (map fst (AList.update k v al))"
  by (auto simp: update_keys)

lemma upsert_keys_mono: "set (map fst idx) \<subseteq> set (map fst (upsert vs idx))"
  unfolding upsert_def
proof (induction vs arbitrary: idx)
  case Nil
  then show ?case by simp
next
  case (Cons v vs)
  have "set (map fst idx) \<subseteq> set (map fst (AList.update (vec_id v) v idx))"
    by (rule keys_update_mono)
  also have "\<dots> \<subseteq> set (map fst (fold (\<lambda>v. AList.update (vec_id v) v) vs
                                     (AList.update (vec_id v) v idx)))"
    by (rule Cons.IH)
  finally show ?case by simp
qed

lemma upsert_contains_ids: "set (map vec_id vs) \<subseteq> set (map fst (upsert vs idx))"
proof (induction vs arbitrary: idx)
  case Nil
  then show ?case by simp
next
  case (Cons v vs)
  have "vec_id v \<in> set (map fst (AList.update (vec_id v) v idx))"
    by (simp add: update_keys)
  then have "vec_id v \<in> set (map fst (upsert vs (AList.update (vec_id v) v idx)))"
    using upsert_keys_mono by blast
  moreover have "set (map vec_id vs)
                   \<subseteq> set (map fst (upsert vs (AList.update (vec_id v) v idx)))"
    by (rule Cons.IH)
  ultimately show ?case by (simp add: upsert_def)
qed

text \<open>Upserting the same records again adds no id.\<close>

lemma upsert_idempotent_ids: "map fst (upsert vs (upsert vs idx)) = map fst (upsert vs idx)"
  by (rule upsert_present_keys) (rule upsert_contains_ids)

lemma chunk_vectors_ids:
  assumes "\<forall>i < length chunks. date_now e1 i = date_now e2 i"
  shows "map vec_id (chunk_vectors e1 chunks emb1 c1 url sid1)
       = map vec_id (chunk_vectors e2 chunks emb2 c2 url' sid2)"
  using assms
  by (auto simp: chunk_vectors_def in_set_enumerate_eq)

text \<open>
  Claim C2, as the code has it. A record id is built from \<open>Date.now()\<close> and the chunk
  position, not from the URL. When the first run stored its records and the second run
  reads the same clock values, the second run of \<open>indexChunks\<close> on the same chunks leaves
  the ids in the index, and so the number of entries, as the first run left them.
\<close>

theorem C2_reindex_same_clock:
  assumes "upsert_error e1 = None"
    and "\<forall>i < length chunks. date_now e1 i = date_now e2 i"
  shows "map fst (vectorIndex (snd (indexChunks opts e2 chunks emb2 c2 url
                    (snd (indexChunks opts e1 chunks emb1 c1 url s)))))
       = map fst (vectorIndex (snd (indexChunks opts e1 chunks emb1 c1 url s)))"
proof (cases "testMode opts")
  case True
  then show ?thesis by (simp add: indexChunks_def)
next
  case False
  let ?v1 = "chunk_vectors e1 chunks emb1 c1 url (indexer_sessionId s)"
  let ?s1 = "s\<lparr>vectorIndex := upsert ?v1 (vectorIndex s)\<rparr>"
  let ?v2 = "chunk_vectors e2 chunks emb2 c2 url (indexer_sessionId ?s1)"
  have s1: "snd (indexChunks opts e1 chunks emb1 c1 url s) = ?s1"
    using False assms(1) by (simp add: indexChunks_def)
  have ids: "map vec_id ?v2 = map vec_id ?v1"
    using chunk_vectors_ids[OF assms(2)] by metis
  have sub: "set (map vec_id ?v2) \<subseteq> set (map fst (vectorIndex ?s1))"
    unfolding ids using upsert_contains_ids by simp
  show ?thesis
  proof (cases "upsert_error e2")
    case None
    then show ?thesis
      unfolding s1 using False upsert_present_keys[OF sub]
      by (simp add: indexChunks_def)
  next
    case (Some msg)
    then show ?thesis
      unfolding s1 using False by (simp add: indexChunks_def report_error_throws)
  qed
qed

theorem C2_reindex_same_clock_witness:
  "upsert_error (demo_page 0 long_body) = None
   \<and> map fst (vectorIndex (snd (indexChunks demo_options (demo_page 0 long_body) [long_body]
                  [[1 / 2, 1 / 4]] (demo_content long_body) ''/p1'' indexed_once)))
       = map fst (vectorIndex indexed_once)"
proof -
  have h1: "upsert_error (demo_page 0 long_body) = None"
    by (simp add: demo_page_def)
  have h2: "\<forall>i < length [long_body].
              date_now (demo_page 0 long_body) i = date_now (demo_page 0 long_body) i"
    by simp
  from C2_reindex_same_clock[OF h1 h2, of demo_options "[[1 / 2, 1 / 4]]"
         "demo_content long_body" "''/p1''" "[[1 / 2, 1 / 4]]" "demo_content long_body" fresh]
  have "map fst (vectorIndex (snd (indexChunks demo_options (demo_page 0 long_body)
                  [long_body] [[1 / 2, 1 / 4]] (demo_content long_body) ''/p1'' indexed_once)))
       = map fst (vectorIndex indexed_once)"
    by (simp add: indexed_once_def)
  with h1 show ?thesis by (rule conjI)
qed

text \<open>
  The claim as stated fails: the same URL and chunk indexed at clock 100 and again at
  clock 150 leaves two records in the index, where one run leaves one.
\<close>

theorem C2_reindex_counterexample:
  "map fst (vectorIndex indexed_once) = [''guimera-p1-100-0'']
   \<and> map fst (vectorIndex indexed_twice) = [''guimera-p1-100-0'', ''guimera-p1-150-0'']
   \<and> length (vectorIndex indexed_once) = 1
   \<and> length (vectorIndex indexed_twice) = 2"
  by code_simp


section \<open>Budget enforcement\<close>

lemma createBatches_loop_terminates:
  "0 < n \<Longrightarrow> \<exists>bs. createBatches_loop xs n i acc = Some (acc @ bs) \<and> concat bs = drop i xs"
proof (induction "length xs - i" arbitrary: i acc rule: less_induct)
  case less
  show ?case
  proof (cases "i < length xs")
    case True
    then have "length xs - (i + n) < length xs - i" using less.prems by simp
    from less.hyps[OF this less.prems, of "acc @ [take n (drop i xs)]"]
    obtain bs where bs: "createBatches_loop xs n (i + n) (acc @ [take n (drop i xs)])
                          = Some ((acc @ [take n (drop i xs)]) @ bs)"
        "concat bs = drop (i + n) xs"
      by blast
    have "take n (drop i xs) @ drop n (drop i xs) = drop i xs"
      by (rule append_take_drop_id)
    then have "concat (take n (drop i xs) # bs) = drop i xs"
      using bs(2) by (simp add: add.commute)
    then show ?thesis
      using True bs(1)
      by (subst createBatches_loop.simps) (auto intro!: exI[of _ "take n (drop i xs) # bs"])
  next
    case False
    then show ?thesis by (subst createBatches_loop.simps) simp
  qed
qed

text \<open>With a positive batch size \<open>createBatches\<close> returns, and the batches cover the URLs.\<close>

lemma createBatches_terminates:
  "0 < n \<Longrightarrow> \<exists>bs. createBatches xs n = Some bs \<and> concat bs = xs"
  using createBatches_loop_terminates[of n xs 0 "[]"] by (simp add: createBatches_def)

lemma batches_loop_crossing:
  assumes "batches_loop opts w batches s = run"
    and "stats_totalCost (indexer_stats s) \<le> costBudget opts"
    and "stats_totalCost (indexer_stats (snd run)) > costBudget opts"
  shows "\<exists>pre batch post s1. batches = pre @ batch # post
      \<and> batches_loop opts w pre s = (Ok (), s1)
      \<and> stats_totalCost (indexer_stats s1) \<le> costBudget opts
      \<and> processBatch opts w batch s1 = run"
  using assms
proof (induction batches arbitrary: s)
  case Nil
  then show ?case by auto
next
  case (Cons b bs)
  obtain r s1 where pb: "processBatch opts w b s = (r, s1)"
    by (cases "processBatch opts w b s")
  show ?case
  proof (cases "r = Ok () \<and> stats_totalCost (indexer_stats s1) \<le> costBudget opts")
    case True
    with pb Cons.prems have "batches_loop opts w bs s1 = run" by simp
    from Cons.IH[OF this _ Cons.prems(3)] True
    obtain pre batch post s2 where d: "bs = pre @ batch # post"
        "batches_loop opts w pre s1 = (Ok (), s2)"
        "stats_totalCost (indexer_stats s2) \<le> costBudget opts"
        "processBatch opts w batch s2 = run"
      by blast
    have "batches_loop opts w (b # pre) s = (Ok (), s2)"
      using pb True d(2) by simp
    with d show ?thesis
      by (intro exI[of _ "b # pre"] exI[of _ batch] exI[of _ post] exI[of _ s2]) simp
  next
    case False
    then have "batches_loop opts w (b # bs) s = (r, s1)"
      using pb by (cases r) auto
    with Cons.prems(1) have "processBatch opts w b s = run" using pb by simp
    then show ?thesis using Cons.prems(2)
      by (intro exI[of _ "[]"] exI[of _ b] exI[of _ bs] exI[of _ s]) simp
  qed
qed

text \<open>
  Claim C5. When a run of \<open>processBatches\<close> that started within the budget ends above it,
  the run is: some batches, each of which ended within the budget, then one batch, and
  nothing after it. The state the run returns is the state right after that one batch,
  so no batch was started once the cost exceeded the budget, and the overshoot is at
  most the cost that batch added.
\<close>

theorem C5_budget_enforcement:
  assumes "processBatches opts w urls s = Some run"
    and "stats_totalCost (indexer_stats s) \<le> costBudget opts"
    and "stats_totalCost (indexer_stats (snd run)) > costBudget opts"
  shows "\<exists>pre batch post s1.
        createBatches urls (batchSize opts) = Some (pre @ batch # post)
      \<and> batches_loop opts w pre s = (Ok (), s1)
      \<and> stats_totalCost (indexer_stats s1) \<le> costBudget opts
      \<and> processBatch opts w batch s1 = run
      \<and> stats_totalCost (indexer_stats (snd run)) - costBudget opts
           \<le> stats_totalCost (indexer_stats (snd run)) - stats_totalCost (indexer_stats s1)"
proof -
  from assms(1) obtain batches where b: "createBatches urls (batchSize opts) = Some batches"
      and r: "batches_loop opts w batches s = run"
    by (auto simp: processBatches_def split: option.splits)
  from batches_loop_crossing[OF r assms(2,3)]
  obtain pre batch post s1 where "batches = pre @ batch # post"
      "batches_loop opts w pre s = (Ok (), s1)"
      "stats_totalCost (indexer_stats s1) \<le> costBudget opts"
      "processBatch opts w batch s1 = run"
    by blast
  then show ?thesis
    using b by (intro exI[of _ pre] exI[of _ batch] exI[of _ post] exI[of _ s1]) simp
qed

lemma budget_run_facts:
  "processBatches tight_options site_ok three_pages fresh = Some budget_run"
  "stats_totalCost (indexer_stats fresh) \<le> costBudget tight_options"
  "stats_totalCost (indexer_stats (snd budget_run)) > costBudget tight_options"
  "visited (snd budget_run) = [''/p1'', ''/p2'']"
  "stats_totalCost (indexer_stats (snd budget_run)) = 13 / 100000"
  by code_simp+

theorem C5_budget_enforcement_witness:
  "processBatches tight_options site_ok three_pages fresh = Some budget_run
   \<and> stats_totalCost (indexer_stats fresh) \<le> costBudget tight_options
   \<and> stats_totalCost (indexer_stats (snd budget_run)) > costBudget tight_options
   \<and> visited (snd budget_run) = [''/p1'', ''/p2'']
   \<and> (\<exists>pre batch post s1.
        createBatches three_pages (batchSize tight_options) = Some (pre @ batch # post)
      \<and> batches_loop tight_options site_ok pre fresh = (Ok (), s1)
      \<and> stats_totalCost (indexer_stats s1) \<le> costBudget tight_options
      \<and> processBatch tight_options site_ok batch s1 = budget_run
      \<and> stats_totalCost (indexer_stats (snd budget_run)) - costBudget tight_options
           \<le> stats_totalCost (indexer_stats (snd budget_run))
               - stats_totalCost (indexer_stats s1))"
  using C5_budget_enforcement[OF budget_run_facts(1,2,3)] budget_run_facts
  by blast


section \<open>Pages with too little text\<close>

lemma try_url_insufficient:
  assumes "insufficient (w (length (visited s)) url)"
  shows "try_url opts w url s = (Threw type_error, s\<lparr>visited := visited s @ [url]\<rparr>)"
  using assms
  by (auto simp: try_url_def insufficient_def Let_def report_and_fail_throws
           split: outcome.splits option.splits)

lemma processUrl_insufficient:
  "\<forall>k. insufficient (w k url) \<Longrightarrow>
   \<exists>v. processUrl opts w url attempt s = (Threw type_error, s\<lparr>visited := v\<rparr>)"
proof (induction opts w url attempt s rule: processUrl.induct)
  case (1 opts w url attempt s)
  have t: "try_url opts w url s = (Threw type_error, s\<lparr>visited := visited s @ [url]\<rparr>)"
    using "1.prems" by (simp add: try_url_insufficient)
  show ?case
  proof (cases "attempt < retryAttempts opts")
    case True
    from "1.IH"[OF t[symmetric] refl True "1.prems"]
    obtain v where "processUrl opts w url (attempt + 1) (s\<lparr>visited := visited s @ [url]\<rparr>)
                      = (Threw type_error, s\<lparr>visited := visited s @ [url]\<rparr>\<lparr>visited := v\<rparr>)"
      by blast
    then show ?thesis using t True by (subst processUrl.simps) auto
  next
    case False
    then show ?thesis using t by (subst processUrl.simps) auto
  qed
qed

lemma process_one_insufficient:
  assumes "\<forall>k. insufficient (w k url)"
  shows "\<exists>v. process_one opts w url s =
     (Threw type_error,
      s\<lparr>indexer_reporter := recordUrl (indexer_reporter s) (indexer_sessionId s) url
                               ''processing'' [],
        visited := v,
        indexer_stats := (indexer_stats s)\<lparr>urlsFailed := urlsFailed (indexer_stats s) + 1,
                                           urlsProcessed := urlsProcessed (indexer_stats s) + 1\<rparr>\<rparr>)"
proof -
  let ?s1 = "report_url s url ''processing'' []"
  from assms processUrl_insufficient[where w = w and url = url and opts = opts
                                      and attempt = 1 and s = ?s1]
  obtain v where "processUrl opts w url 1 ?s1 = (Threw type_error, ?s1\<lparr>visited := v\<rparr>)"
    by blast
  then show ?thesis
    by (auto simp: process_one_def Let_def catch_url_def report_error_throws report_url_def)
qed

text \<open>
  Claim C3, as the code has it. The indexer has no \<open>skipped\<close> status and no
  \<open>pagesSkipped\<close> counter: a URL whose extracted text is under 100 characters on every
  attempt is counted as failed. Processing it adds one to \<open>urlsFailed\<close>, leaves
  \<open>urlsSuccessful\<close> and the vector index as they were, and writes no URL record with
  status \<open>skipped\<close> or \<open>indexed\<close>.
\<close>

theorem C3_short_page_counts_as_failed:
  assumes "\<forall>k. insufficient (w k url)"
    and "url \<notin> set (indexer_processedUrls s)"
  shows "urlsFailed (indexer_stats (snd (processBatch opts w [url] s)))
           = urlsFailed (indexer_stats s) + 1
       \<and> urlsSuccessful (indexer_stats (snd (processBatch opts w [url] s)))
           = urlsSuccessful (indexer_stats s)
       \<and> vectorIndex (snd (processBatch opts w [url] s)) = vectorIndex s
       \<and> status_count ''skipped'' (snd (processBatch opts w [url] s))
           = status_count ''skipped'' s
       \<and> status_count ''indexed'' (snd (processBatch opts w [url] s))
           = status_count ''indexed'' s"
proof -
  from assms(1) process_one_insufficient[where w = w and url = url and opts = opts and s = s]
  obtain v where "process_one opts w url s =
     (Threw type_error,
      s\<lparr>indexer_reporter := recordUrl (indexer_reporter s) (indexer_sessionId s) url
                               ''processing'' [],
        visited := v,
        indexer_stats := (indexer_stats s)\<lparr>urlsFailed := urlsFailed (indexer_stats s) + 1,
                                           urlsProcessed := urlsProcessed (indexer_stats s) + 1\<rparr>\<rparr>)"
    by blast
  then show ?thesis using assms(2)
    by (simp add: status_count_def recordUrl_def)
qed

theorem C3_short_page_counts_as_failed_witness:
  "urlsFailed (indexer_stats (snd (processBatch demo_options site_short_p5 [''/p5''] fresh)))
           = urlsFailed (indexer_stats fresh) + 1
       \<and> urlsSuccessful (indexer_stats (snd (processBatch demo_options site_short_p5 [''/p5''] fresh)))
           = urlsSuccessful (indexer_stats fresh)
       \<and> vectorIndex (snd (processBatch demo_options site_short_p5 [''/p5''] fresh))
           = vectorIndex fresh
       \<and> status_count ''skipped'' (snd (processBatch demo_options site_short_p5 [''/p5''] fresh))
           = status_count ''skipped'' fresh
       \<and> status_count ''indexed'' (snd (processBatch demo_options site_short_p5 [''/p5''] fresh))
           = status_count ''indexed'' fresh"
proof -
  have h1: "\<forall>k. insufficient (site_short_p5 k ''/p5'')"
    by (simp add: insufficient_def site_short_p5_def demo_page_def demo_content_def
                  short_body_def)
  have h2: "''/p5'' \<notin> set (indexer_processedUrls fresh)"
    by (simp add: fresh_def new_indexer_def)
  show ?thesis
    by (rule C3_short_page_counts_as_failed[where w = site_short_p5 and url = "''/p5''"
                and s = fresh and opts = demo_options, OF h1 h2])
qed

text \<open>
  The claim as stated fails on the five-page site whose last page has 40 characters of
  text: four URLs are recorded as \<open>indexed\<close> and none as \<open>skipped\<close>, and the short page is
  counted in \<open>urlsFailed\<close>.
\<close>

theorem C3_scenario_counterexample:
  "scenario_a \<noteq> None
   \<and> status_count ''indexed'' (snd (the scenario_a)) = 4
   \<and> status_count ''skipped'' (snd (the scenario_a)) = 0
   \<and> urlsFailed (indexer_stats (snd (the scenario_a))) = 1
   \<and> urlsSuccessful (indexer_stats (snd (the scenario_a))) = 4"
  by code_simp


section \<open>Retries and failure isolation\<close>

lemma createEmbeddings_state: "createEmbeddings opts e chunks url s = (r, s') \<Longrightarrow> s' = s"
  by (auto simp: createEmbeddings_def report_error_throws split: outcome.splits if_splits)

lemma indexChunks_visited:
  "indexChunks opts e chunks embeddings content url s = (r, s') \<Longrightarrow> visited s' = visited s"
  by (auto simp: indexChunks_def report_error_throws Let_def split: option.splits if_splits)

text \<open>Every attempt navigates to the URL exactly once.\<close>

lemma try_url_visited: "visited (snd (try_url opts w url s)) = visited s @ [url]"
  by (auto simp: try_url_def Let_def report_and_fail_throws
           split: option.splits outcome.splits prod.splits
           dest!: createEmbeddings_state indexChunks_visited)

text \<open>
  When every attempt throws, \<open>processUrl\<close> started at attempt \<open>a\<close> makes
  \<open>retryAttempts - a + 1\<close> attempts; from the first attempt, with \<open>retryAttempts\<close> at least
  1, that is \<open>retryAttempts\<close> attempts.
\<close>

lemma processUrl_attempts:
  "\<forall>st. \<exists>m. fst (try_url opts w url st) = Threw m \<Longrightarrow>
   visited (snd (processUrl opts w url attempt s))
     = visited s @ replicate (Suc (retryAttempts opts - attempt)) url"
proof (induction opts w url attempt s rule: processUrl.induct)
  case (1 opts w url attempt s)
  obtain m s1 where t: "try_url opts w url s = (Threw m, s1)"
    using "1.prems" by (metis fst_conv surj_pair)
  have v: "visited s1 = visited s @ [url]"
    using try_url_visited[of opts w url s] t by simp
  show ?case
  proof (cases "attempt < retryAttempts opts")
    case True
    have "visited (snd (processUrl opts w url (attempt + 1) s1))
            = visited s1 @ replicate (Suc (retryAttempts opts - (attempt + 1))) url"
      by (rule "1.IH"[OF t[symmetric] refl True "1.prems"])
    moreover have "Suc (retryAttempts opts - (attempt + 1)) = retryAttempts opts - attempt"
      using True by simp
    then have "replicate (Suc (retryAttempts opts - attempt)) url
                 = url # replicate (Suc (retryAttempts opts - (attempt + 1))) url"
      by simp
    ultimately show ?thesis
      using t True v by (subst processUrl.simps) (simp del: replicate_Suc)
  next
    case False
    then show ?thesis using t v by (subst processUrl.simps) simp
  qed
qed

lemma processUrl_attempts_from_first:
  assumes "\<forall>st. \<exists>m. fst (try_url opts w url st) = Threw m" and "0 < retryAttempts opts"
  shows "visited (snd (processUrl opts w url 1 s))
           = visited s @ replicate (retryAttempts opts) url"
proof -
  have "Suc (retryAttempts opts - 1) = retryAttempts opts" using assms(2) by simp
  then show ?thesis using processUrl_attempts[OF assms(1), of 1 s] by simp
qed

text \<open>
  Claim C4. A URL that throws on every attempt should be tried \<open>retryAttempts\<close> times and
  then be recorded as \<open>failed\<close>. On the page that refuses every connection, with
  \<open>retryAttempts = 3\<close>, the batch navigates to the URL three times; then the \<open>catch\<close> block
  counts the failure, its \<open>recordError\<close> call throws, and the batch ends with that
  TypeError: the only URL record is \<open>processing\<close>, and no error record is written.
\<close>

theorem C4_failed_status_not_recorded:
  "retryAttempts demo_options = 3
   \<and> visited (snd down_batch) = [''/p1'', ''/p1'', ''/p1'']
   \<and> fst down_batch = Threw type_error
   \<and> map rec_status (data_urls (indexer_reporter (snd down_batch))) = [''processing'']
   \<and> status_count ''failed'' (snd down_batch) = 0
   \<and> data_errors (indexer_reporter (snd down_batch)) = []
   \<and> urlsFailed (indexer_stats (snd down_batch)) = 1"
  by code_simp

text \<open>
  Claim C7. A failing URL should not stop the URLs after it. On the three-page site whose
  first page refuses every connection, \<open>processBatches\<close> ends with the TypeError of the
  \<open>catch\<close> block's \<open>recordError\<close> call: the second and third page are never visited, no URL
  is recorded as \<open>failed\<close>, and no error record is written.
\<close>

theorem C7_failure_aborts_run:
  "down_run \<noteq> None
   \<and> fst (the down_run) = Threw type_error
   \<and> visited (snd (the down_run)) = [''/p1'', ''/p1'', ''/p1'']
   \<and> map rec_url (data_urls (indexer_reporter (snd (the down_run)))) = [''/p1'']
   \<and> map rec_status (data_urls (indexer_reporter (snd (the down_run)))) = [''processing'']
   \<and> data_errors (indexer_reporter (snd (the down_run))) = []
   \<and> indexer_processedUrls (snd (the down_run)) = []"
  by code_simp

end
